theory Spec2Isabelle
  imports Complex_Main "HOL-Library.List_Lexorder" "HOL-Library.Multiset"
begin

section \<open>JavaScript numbers\<close>

text \<open>
  \<^verbatim>\<open>server.js\<close> computes with JavaScript Numbers, that is IEEE 754 binary64 values under
  round-to-nearest, ties-to-even. A Number is \<open>NaN\<close>, an infinity, the negative zero, or a
  finite value \<open>Fin r\<close>, where \<open>Fin 0\<close> is the positive zero. The finite values the
  program can hold are the binary64 numbers: every arithmetic result goes through \<open>rnd\<close>,
  which rounds an exact real to the nearest binary64 number.
\<close>

datatype number = NaN | PInf | NInf | NegZero | Fin real

fun bitlen :: "nat \<Rightarrow> nat" where
  \<comment> \<open>the number of binary digits\<close>
  "bitlen n = (if n = 0 then 0 else Suc (bitlen (n div 2)))"

declare bitlen.simps [simp del]

definition bits :: "int \<Rightarrow> int" where
  "bits k = int (bitlen (nat k))"

definition ilog2 :: "real \<Rightarrow> int" where
  \<comment> \<open>for \<open>0 < a\<close>, the integer \<open>e\<close> with \<open>2 powi e \<le> a < 2 powi (e + 1)\<close>\<close>
  "ilog2 a = (if 1 \<le> a then bits \<lfloor>a\<rfloor> - 1 else - bits (\<lceil>1 / a\<rceil> - 1))"

definition expo :: "real \<Rightarrow> int" where
  \<comment> \<open>the binary exponent of \<open>a\<close>, held at \<open>- 1022\<close> in the subnormal range\<close>
  "expo a = max (ilog2 a) (- 1022)"

definition quantum :: "real \<Rightarrow> real" where
  \<comment> \<open>the spacing of the binary64 numbers around \<open>a\<close>: 53 significant bits\<close>
  "quantum a = 2 powi (expo a - 52)"

definition tie_even :: "int \<Rightarrow> real \<Rightarrow> int" where
  "tie_even f d = (if d < 1 / 2 then f else if 1 / 2 < d then f + 1
                   else if even f then f else f + 1)"

definition round_half_even :: "real \<Rightarrow> int" where
  "round_half_even q = tie_even \<lfloor>q\<rfloor> (q - of_int \<lfloor>q\<rfloor>)"

definition to_grid :: "real \<Rightarrow> real \<Rightarrow> real" where
  "to_grid u a = of_int (round_half_even (a / u)) * u"

definition inf_of :: "bool \<Rightarrow> number" where
  "inf_of neg = (if neg then NInf else PInf)"

definition zero_of :: "bool \<Rightarrow> number" where
  "zero_of neg = (if neg then NegZero else Fin 0)"

definition pack :: "bool \<Rightarrow> real \<Rightarrow> number" where
  \<comment> \<open>overflow gives an infinity, underflow a zero of the sign of the exact value\<close>
  "pack neg r = (if 2 ^ 1024 \<le> r then inf_of neg
                 else if r = 0 then zero_of neg
                 else Fin (if neg then - r else r))"

definition rnd :: "real \<Rightarrow> number" where
  "rnd x = pack (x < 0) (to_grid (quantum \<bar>x\<bar>) \<bar>x\<bar>)"

fun is_neg :: "number \<Rightarrow> bool" where
  "is_neg NInf = True"
| "is_neg NegZero = True"
| "is_neg (Fin r) = (r < 0)"
| "is_neg _ = False"

fun is_inf :: "number \<Rightarrow> bool" where
  "is_inf PInf = True"
| "is_inf NInf = True"
| "is_inf _ = False"

fun is_zero :: "number \<Rightarrow> bool" where
  "is_zero NegZero = True"
| "is_zero (Fin r) = (r = 0)"
| "is_zero _ = False"

fun mag :: "number \<Rightarrow> real" where
  \<comment> \<open>the real value of a finite Number\<close>
  "mag (Fin r) = r"
| "mag _ = 0"

text \<open>\<open>Number::add\<close>, \<open>Number::multiply\<close> and \<open>Number::divide\<close> of ECMAScript.\<close>

definition js_add :: "number \<Rightarrow> number \<Rightarrow> number" where
  "js_add x y =
     (if x = NaN \<or> y = NaN then NaN
      else if is_inf x then (if is_inf y \<and> x \<noteq> y then NaN else x)
      else if is_inf y then y
      else if x = NegZero then y
      else if y = NegZero then x
      else rnd (mag x + mag y))"

definition js_mul :: "number \<Rightarrow> number \<Rightarrow> number" where
  "js_mul x y =
     (if x = NaN \<or> y = NaN then NaN
      else if is_inf x \<or> is_inf y
        then (if is_zero x \<or> is_zero y then NaN else inf_of (is_neg x \<noteq> is_neg y))
      else if is_zero x \<or> is_zero y then zero_of (is_neg x \<noteq> is_neg y)
      else rnd (mag x * mag y))"

definition js_div :: "number \<Rightarrow> number \<Rightarrow> number" where
  "js_div x y =
     (if x = NaN \<or> y = NaN then NaN
      else if is_inf x then (if is_inf y then NaN else inf_of (is_neg x \<noteq> is_neg y))
      else if is_inf y then zero_of (is_neg x \<noteq> is_neg y)
      else if is_zero y then (if is_zero x then NaN else inf_of (is_neg x \<noteq> is_neg y))
      else if is_zero x then zero_of (is_neg x \<noteq> is_neg y)
      else rnd (mag x / mag y))"

text \<open>The relational operators \<^verbatim>\<open><\<close> and \<^verbatim>\<open><=\<close> on Numbers: false whenever an operand is
  \<open>NaN\<close>, and the two zeros compare equal.\<close>

definition js_lt :: "number \<Rightarrow> number \<Rightarrow> bool" where
  "js_lt x y = (x \<noteq> NaN \<and> y \<noteq> NaN \<and> x \<noteq> PInf \<and> y \<noteq> NInf \<and>
                (x = NInf \<or> y = PInf \<or> mag x < mag y))"

definition js_le :: "number \<Rightarrow> number \<Rightarrow> bool" where
  "js_le x y = (x \<noteq> NaN \<and> y \<noteq> NaN \<and>
                (x = NInf \<or> y = PInf \<or> (\<not> is_inf x \<and> \<not> is_inf y \<and> mag x \<le> mag y)))"

definition js_gt :: "number \<Rightarrow> number \<Rightarrow> bool" where
  "js_gt x y = js_lt y x"

definition truthy :: "number \<Rightarrow> bool" where
  \<comment> \<open>\<open>ToBoolean\<close> on a Number\<close>
  "truthy x = (x \<noteq> NaN \<and> \<not> is_zero x)"

fun is_finite :: "number \<Rightarrow> bool" where
  \<comment> \<open>a zero or a finite non-zero Number\<close>
  "is_finite NegZero = True"
| "is_finite (Fin r) = (\<bar>r\<bar> < 2 ^ 1024)"
| "is_finite _ = False"

section \<open>JavaScript strings\<close>

text \<open>
  A String is a sequence of UTF-16 code units, modelled as natural numbers. \<open>js\<close> turns a
  literal into its code units.
\<close>

type_synonym jsstring = "nat list"

definition js :: "string \<Rightarrow> jsstring" where
  "js s = map of_char s"

text \<open>
  The relational operators on two Strings follow \<open>IsLessThan\<close>: a proper prefix is smaller,
  otherwise the first differing code units decide. \<^verbatim>\<open>a >= b\<close> is the negation of
  \<^verbatim>\<open>a < b\<close>, and \<^verbatim>\<open>a <= b\<close> the negation of \<^verbatim>\<open>b < a\<close>.
\<close>

fun str_lt :: "jsstring \<Rightarrow> jsstring \<Rightarrow> bool" where
  "str_lt _ [] = False"
| "str_lt [] (_ # _) = True"
| "str_lt (x # xs) (y # ys) = (if x = y then str_lt xs ys else x < y)"

definition str_ge :: "jsstring \<Rightarrow> jsstring \<Rightarrow> bool" where
  "str_ge a b = (\<not> str_lt a b)"

definition str_le :: "jsstring \<Rightarrow> jsstring \<Rightarrow> bool" where
  "str_le a b = (\<not> str_lt b a)"

text \<open>
  \<open>parseFloat\<close>: leading white space is skipped, then the longest prefix that is a
  \<open>StrDecimalLiteral\<close> is read (a sign, then \<open>Infinity\<close> or decimal digits with an optional
  fraction and an optional exponent); without such a prefix the result is \<open>NaN\<close>. The
  mathematical value of the literal is rounded to a Number; a zero keeps the sign written.
\<close>

definition is_white :: "nat \<Rightarrow> bool" where
  "is_white c = (c \<in> {9, 10, 11, 12, 13, 32, 160, 5760, 8232, 8233, 8239, 8287, 12288, 65279}
                 \<or> (8192 \<le> c \<and> c \<le> 8202))"

definition is_digit :: "nat \<Rightarrow> bool" where
  "is_digit c = (48 \<le> c \<and> c \<le> 57)"

definition digits_val :: "jsstring \<Rightarrow> nat" where
  "digits_val ds = foldl (\<lambda>n c. 10 * n + (c - 48)) 0 ds"

definition signed :: "jsstring \<Rightarrow> bool \<times> jsstring" where
  "signed s = (case s of [] \<Rightarrow> (False, [])
               | c # r \<Rightarrow> if c = 45 then (True, r) else if c = 43 then (False, r) else (False, s))"

definition fraction_part :: "jsstring \<Rightarrow> jsstring \<times> jsstring" where
  \<comment> \<open>the digits after a decimal point, and what follows them\<close>
  "fraction_part r = (case r of [] \<Rightarrow> ([], [])
                      | c # t \<Rightarrow> if c = 46 then (takeWhile is_digit t, dropWhile is_digit t)
                                else ([], r))"

definition exponent_part :: "jsstring \<Rightarrow> int" where
  \<comment> \<open>\<^verbatim>\<open>e\<close> or \<^verbatim>\<open>E\<close>, an optional sign and at least one digit; anything else is not
      part of the literal\<close>
  "exponent_part s = (case s of [] \<Rightarrow> 0
     | c # r \<Rightarrow> if c = 101 \<or> c = 69
                then (case signed r of (neg, t) \<Rightarrow>
                       (if takeWhile is_digit t = [] then 0
                        else if neg then - int (digits_val (takeWhile is_digit t))
                        else int (digits_val (takeWhile is_digit t))))
                else 0)"

definition str_decimal :: "jsstring \<Rightarrow> real option" where
  "str_decimal s = (case fraction_part (dropWhile is_digit s) of (fp, rest) \<Rightarrow>
     (if takeWhile is_digit s = [] \<and> fp = [] then None
      else Some (real (digits_val (takeWhile is_digit s @ fp))
                 * 10 powi (exponent_part rest - int (length fp)))))"

definition parseFloat :: "jsstring \<Rightarrow> number" where
  "parseFloat s = (case signed (dropWhile is_white s) of (neg, u) \<Rightarrow>
     (if take 8 u = js ''Infinity'' then inf_of neg
      else case str_decimal u of None \<Rightarrow> NaN
           | Some mv \<Rightarrow> if mv = 0 then zero_of neg else rnd (if neg then - mv else mv)))"

text \<open>
  \<open>Number.prototype.toFixed\<close>: a value that is not finite is printed by name, a magnitude
  of at least \<open>10 ^ 21\<close> in the exponent notation of \<open>Number::toString\<close>, and any other
  value as the integer \<open>n\<close> nearest to \<open>x * 10 ^ f\<close> (the larger one of two) with a decimal
  point before its last \<open>f\<close> digits.
\<close>

fun dec :: "nat \<Rightarrow> jsstring" where
  "dec n = (if n < 10 then [48 + n] else dec (n div 10) @ [48 + n mod 10])"

declare dec.simps [simp del]

definition fixed_digits :: "nat \<Rightarrow> nat \<Rightarrow> jsstring" where
  "fixed_digits n f =
     (if f = 0 then dec n
      else if length (dec n) \<le> f
        then take 1 (replicate (f + 1 - length (dec n)) 48 @ dec n) @ [46]
             @ drop 1 (replicate (f + 1 - length (dec n)) 48 @ dec n)
      else take (length (dec n) - f) (dec n) @ [46] @ drop (length (dec n) - f) (dec n))"

definition candidates :: "real \<Rightarrow> nat \<Rightarrow> nat \<Rightarrow> (nat \<times> nat) list" where
  \<comment> \<open>the \<open>k\<close>-digit integers \<open>s\<close> with \<open>s * 10 ^ (n - k)\<close> rounding to \<open>a\<close>\<close>
  "candidates a n k =
     map (\<lambda>s. (s, n))
       (filter (\<lambda>s. 10 ^ (k - 1) \<le> s \<and> s < 10 ^ k \<and> rnd (real s * 10 ^ (n - k)) = Fin a)
          [nat \<lfloor>a / 10 ^ (n - k)\<rfloor>, nat \<lfloor>a / 10 ^ (n - k)\<rfloor> + 1])"

definition closer :: "real \<Rightarrow> nat \<Rightarrow> nat \<times> nat \<Rightarrow> nat \<times> nat \<Rightarrow> nat \<times> nat" where
  \<comment> \<open>of two candidates the one nearer to \<open>a\<close>, the even one of two equally near\<close>
  "closer a k p q =
     (let dp = \<bar>real (fst p) * 10 ^ (snd p - k) - a\<bar>; dq = \<bar>real (fst q) * 10 ^ (snd q - k) - a\<bar>
      in if dp < dq then p else if dq < dp then q else if even (fst p) then p else q)"

fun shortest :: "real \<Rightarrow> nat \<Rightarrow> nat \<Rightarrow> nat \<Rightarrow> nat \<times> nat" where
  \<comment> \<open>the digits \<open>s\<close> and the position \<open>n\<close> of the shortest decimal that reads back as
      \<open>a\<close>; seventeen digits always suffice\<close>
  "shortest a n0 k 0 = (nat \<lfloor>a\<rfloor>, n0)"
| "shortest a n0 k (Suc fuel) =
     (case candidates a n0 k @ candidates a (n0 + 1) k of
        [] \<Rightarrow> shortest a n0 (Suc k) fuel
      | p # ps \<Rightarrow> foldl (closer a k) p ps)"

definition exponential :: "real \<Rightarrow> jsstring" where
  \<comment> \<open>\<open>Number::toString\<close> of a finite \<open>a\<close> with \<open>10 ^ 21 \<le> a\<close>\<close>
  "exponential a =
     (case shortest a (length (dec (nat \<lfloor>a\<rfloor>))) 1 17 of (s, n) \<Rightarrow>
        (if length (dec s) = 1 then dec s @ js ''e+'' @ dec (n - 1)
         else take 1 (dec s) @ [46] @ drop 1 (dec s) @ js ''e+'' @ dec (n - 1)))"

definition unsigned_fixed :: "real \<Rightarrow> nat \<Rightarrow> jsstring" where
  "unsigned_fixed a f =
     (if 10 ^ 21 \<le> a then exponential a else fixed_digits (nat \<lfloor>a * 10 ^ f + 1 / 2\<rfloor>) f)"

definition toFixed :: "number \<Rightarrow> nat \<Rightarrow> jsstring" where
  "toFixed x f = (case x of
       NaN \<Rightarrow> js ''NaN''
     | PInf \<Rightarrow> js ''Infinity''
     | NInf \<Rightarrow> js ''-Infinity''
     | NegZero \<Rightarrow> fixed_digits 0 f
     | Fin r \<Rightarrow> if r < 0 then 45 # unsigned_fixed (- r) f else unsigned_fixed r f)"

section \<open>JavaScript values\<close>

text \<open>
  The values that travel through the handler: \<^verbatim>\<open>undefined\<close> for a property that is missing,
  and the primitive values a JSON body can hold.
\<close>

datatype jsval = Undefined | Null | Bool bool | Str jsstring | Num number

fun strict_eq :: "jsval \<Rightarrow> jsval \<Rightarrow> bool" where
  "strict_eq (Num x) (Num y) = (x \<noteq> NaN \<and> y \<noteq> NaN \<and> (x = y \<or> (is_zero x \<and> is_zero y)))"
| "strict_eq a b = (a = b)"

definition get_prop :: "(jsstring \<rightharpoonup> number) \<Rightarrow> jsstring \<Rightarrow> jsval" where
  \<comment> \<open>reading a property of an object with Number properties\<close>
  "get_prop obj k = (case obj k of None \<Rightarrow> Undefined | Some v \<Rightarrow> Num v)"

definition num_prop :: "(jsstring \<rightharpoonup> number) \<Rightarrow> jsstring \<Rightarrow> number" where
  \<comment> \<open>the property as an operand of \<^verbatim>\<open>+=\<close>: \<^verbatim>\<open>undefined\<close> turns into \<open>NaN\<close>\<close>
  "num_prop obj k = (case obj k of None \<Rightarrow> NaN | Some v \<Rightarrow> v)"

text \<open>
  \<open>ToNumber\<close>, which the division operator applies to its operands. A String goes through
  \<open>StringToNumber\<close>: white space is trimmed at both ends, the empty String is \<open>+0\<close>, and what
  remains must be, as a whole, a \<open>StrDecimalLiteral\<close> or an unsigned binary, octal or
  hexadecimal integer literal; any other String is \<open>NaN\<close>.
\<close>

definition trim :: "jsstring \<Rightarrow> jsstring" where
  "trim s = rev (dropWhile is_white (rev (dropWhile is_white s)))"

definition exponent_rest :: "jsstring \<Rightarrow> jsstring" where
  \<comment> \<open>what follows the exponent part, if there is one\<close>
  "exponent_rest s = (case s of [] \<Rightarrow> []
     | c # r \<Rightarrow> if c = 101 \<or> c = 69
                then (case signed r of (neg, t) \<Rightarrow>
                       (if takeWhile is_digit t = [] then s else dropWhile is_digit t))
                else s)"

definition decimal_rest :: "jsstring \<Rightarrow> jsstring" where
  \<comment> \<open>what follows the longest prefix that \<open>str_decimal\<close> reads\<close>
  "decimal_rest s = (case fraction_part (dropWhile is_digit s) of (fp, rest) \<Rightarrow> exponent_rest rest)"

definition digit_of :: "nat \<Rightarrow> nat" where
  \<comment> \<open>the value of a hexadecimal digit, 16 for any other code unit\<close>
  "digit_of c = (if 48 \<le> c \<and> c \<le> 57 then c - 48
                 else if 97 \<le> c \<and> c \<le> 102 then c - 87
                 else if 65 \<le> c \<and> c \<le> 70 then c - 55
                 else 16)"

definition radix_value :: "nat \<Rightarrow> jsstring \<Rightarrow> nat option" where
  "radix_value r ds =
     (if ds = [] \<or> \<not> list_all (\<lambda>c. digit_of c < r) ds then None
      else Some (foldl (\<lambda>n c. r * n + digit_of c) 0 ds))"

definition non_decimal :: "jsstring \<Rightarrow> nat option" where
  "non_decimal s = (case s of
       z # c # ds \<Rightarrow>
         if z \<noteq> 48 then None
         else if c = 120 \<or> c = 88 then radix_value 16 ds
         else if c = 111 \<or> c = 79 then radix_value 8 ds
         else if c = 98 \<or> c = 66 then radix_value 2 ds
         else None
     | _ \<Rightarrow> None)"

definition string_to_number :: "jsstring \<Rightarrow> number" where
  "string_to_number s =
     (if trim s = [] then Fin 0
      else case non_decimal (trim s) of
        Some n \<Rightarrow> rnd (real n)
      | None \<Rightarrow> (case signed (trim s) of (neg, u) \<Rightarrow>
          (if u = js ''Infinity'' then inf_of neg
           else case str_decimal u of None \<Rightarrow> NaN
                | Some mv \<Rightarrow> if decimal_rest u \<noteq> [] then NaN
                            else if mv = 0 then zero_of neg
                            else rnd (if neg then - mv else mv))))"

fun to_number :: "jsval \<Rightarrow> number" where
  "to_number Undefined = NaN"
| "to_number Null = Fin 0"
| "to_number (Bool b) = Fin (if b then 1 else 0)"
| "to_number (Str s) = string_to_number s"
| "to_number (Num x) = x"

section \<open>Nutrient calculation functions\<close>

text \<open>
  \<^verbatim>\<open>
  function calculateVitaminD(foodCode, chocal, oh25d3) {
      if (foodCode >= 'A001' && foodCode <= 'L004') { return chocal; }
      if (foodCode >= 'M001' && foodCode <= 'S010') { return chocal + (5 * oh25d3); }
      return 0;
  }
  \<close>
  The food code is a String and the two values are Numbers.
\<close>

definition calculateVitaminD :: "jsstring \<Rightarrow> number \<Rightarrow> number \<Rightarrow> number" where
  "calculateVitaminD foodCode chocal oh25d3 =
     (if str_ge foodCode (js ''A001'') \<and> str_le foodCode (js ''L004'') then chocal
      else if str_ge foodCode (js ''M001'') \<and> str_le foodCode (js ''S010'')
        then js_add chocal (js_mul (Fin 5) oh25d3)
      else Fin 0)"

definition calculateVitaminA :: "number \<Rightarrow> number \<Rightarrow> number \<Rightarrow> number" where
  "calculateVitaminA retinol betaCarotene alphaCarotene =
     js_add (js_add retinol (js_div betaCarotene (Fin 12))) (js_div alphaCarotene (Fin 24))"

section \<open>Scaling a nutrient record\<close>

text \<open>
  A nutrient record is one row of the nutrient sheet as \<^verbatim>\<open>getNutrientData\<close> builds it: an object
  from the header names to the cell texts. The field names of the source contain the two code
  units \<open>0xC2 0xB5\<close> before the unit letter \<^verbatim>\<open>g\<close> of the microgram columns.
\<close>

type_synonym nutrient_record = "jsstring \<rightharpoonup> jsstring"

definition micro :: string where
  "micro = [CHR 0xC2, CHR 0xB5]"

definition numericFields :: "jsstring list" where
  "numericFields =
    [js ''Protein (g)'', js ''Fat (g)'', js ''Total fibre (g)'', js ''Carbohydrate (g)'',
    js ''Energy (Kcal)'', js ''Energy (KJ)'', js ''Thiamine, B1 (mg)'',
    js ''Riboflavin, B2 (mg)'', js ''Niacin, B3 (mg)'', js ''Pantothenic Acid B5 (mg)'',
    js ''Pyridoxine B6 (mg)'', js (''Biotin, B7 ('' @ micro @ ''g)''),
    js (''Folate, B9 ('' @ micro @ ''g)''), js ''Vitamin C (mg)'',
    js (''Vitamin A ('' @ micro @ ''g)''), js (''Vitamin D ('' @ micro @ ''g)''),
    js ''VITE (mg)'', js (''VITK1 ('' @ micro @ ''g)''), js ''Iron (Fe) mg'',
    js ''Calcium (Ca) mg'', js ''Magnesium (Mg) mg'', js ''Zinc (Zn) mg'',
    js (''Selenium (Se) '' @ micro @ ''g''), js ''Sodium (Na) mg'', js ''Potassium (K) mg'',
    js ''Phosphorus (P) mg'', js ''Cobalt (Co) mg'', js ''Omega 3 (mg)'', js ''Omega 6 (mg)'',
    js ''MUFA'', js ''PUFA'', js ''SATURATED FAT'', js ''TOTAL SUGAR (g)'']"


definition field_text :: "nutrient_record \<Rightarrow> jsstring \<Rightarrow> jsstring" where
  \<comment> \<open>\<open>ToString\<close> of \<^verbatim>\<open>nutrientData[field]\<close>, as \<open>parseFloat\<close> takes it\<close>
  "field_text nutrientData field =
     (case nutrientData field of None \<Rightarrow> js ''undefined'' | Some s \<Rightarrow> s)"

definition or_zero :: "number \<Rightarrow> number" where
  \<comment> \<open>\<^verbatim>\<open>v || 0\<close>\<close>
  "or_zero v = (if truthy v then v else Fin 0)"

text \<open>
  \<^verbatim>\<open>
  function calculateScaledNutrition(nutrientData, quantity) {
      const factor = quantity / 100;
      const scaled = {};
      numericFields.forEach(field => {
          const value = parseFloat(nutrientData[field]) || 0;
          scaled[field] = value * factor;
      });
      return scaled;
  }
  \<close>
\<close>

definition calculateScaledNutrition :: "nutrient_record \<Rightarrow> number \<Rightarrow> (jsstring \<rightharpoonup> number)" where
  "calculateScaledNutrition nutrientData quantity =
     fold (\<lambda>field scaled.
             scaled(field \<mapsto> js_mul (or_zero (parseFloat (field_text nutrientData field)))
                                    (js_div quantity (Fin 100))))
       numericFields Map.empty"

section \<open>The recipe handler\<close>

text \<open>
  An ingredient line of the request, each property as the body holds it. The handler hands
  the quantity to \<open>calculateScaledNutrition\<close>, whose only use of it is the division by 100;
  the model hands over the Number that this division makes of it, \<open>NaN\<close> for a missing
  quantity.
\<close>

record ingredient =
  lineNo :: jsval
  code :: jsval
  name :: jsval
  quantityInGrams :: jsval

record totals =
  energy :: number
  protein :: number
  fat :: number
  carbs :: number
  fiber :: number
  vitaminD :: number
  vitaminA :: number
  omega3 :: number
  omega6 :: number
  energyKJ :: number
  thiamine :: number
  riboflavin :: number
  niacin :: number
  pantothenicAcid :: number
  pyridoxine :: number
  biotin :: number
  folate :: number
  vitaminC :: number
  vitaminE :: number
  vitaminK1 :: number
  iron :: number
  calcium :: number
  magnesium :: number
  zinc :: number
  selenium :: number
  sodium :: number
  potassium :: number
  phosphorus :: number
  cobalt :: number
  mufa :: number
  pufa :: number
  saturatedFat :: number
  totalSugar :: number


definition totalNutrition :: totals where
  \<comment> \<open>the accumulator as the handler creates it\<close>
  "totalNutrition =
     \<lparr>energy = Fin 0, protein = Fin 0, fat = Fin 0, carbs = Fin 0, fiber = Fin 0,
      vitaminD = Fin 0, vitaminA = Fin 0, omega3 = Fin 0, omega6 = Fin 0, energyKJ = Fin 0,
      thiamine = Fin 0, riboflavin = Fin 0, niacin = Fin 0, pantothenicAcid = Fin 0,
      pyridoxine = Fin 0, biotin = Fin 0, folate = Fin 0, vitaminC = Fin 0, vitaminE = Fin 0,
      vitaminK1 = Fin 0, iron = Fin 0, calcium = Fin 0, magnesium = Fin 0, zinc = Fin 0,
      selenium = Fin 0, sodium = Fin 0, potassium = Fin 0, phosphorus = Fin 0, cobalt = Fin 0,
      mufa = Fin 0, pufa = Fin 0, saturatedFat = Fin 0, totalSugar = Fin 0\<rparr>"


definition food_code :: "nutrient_record \<Rightarrow> jsval" where
  \<comment> \<open>\<^verbatim>\<open>n['Food code']\<close>\<close>
  "food_code n = (case n (js ''Food code'') of None \<Rightarrow> Undefined | Some s \<Rightarrow> Str s)"

definition find_nutrient :: "nutrient_record list \<Rightarrow> ingredient \<Rightarrow> nutrient_record option" where
  \<comment> \<open>\<^verbatim>\<open>nutrientData.find(n => n['Food code'] === ingredient.code)\<close>\<close>
  "find_nutrient nutrientData ing = List.find (\<lambda>n. strict_eq (food_code n) (code ing)) nutrientData"

definition add_scaled :: "totals \<Rightarrow> (jsstring \<rightharpoonup> number) \<Rightarrow> totals" where
  \<comment> \<open>the 33 statements \<^verbatim>\<open>totalNutrition.energy += scaled['Energy (Kcal)']; ...\<close>\<close>
  "add_scaled t scaled = t
     \<lparr>energy := js_add (energy t) (num_prop scaled (js ''Energy (Kcal)'')),
       protein := js_add (protein t) (num_prop scaled (js ''Protein (g)'')),
       fat := js_add (fat t) (num_prop scaled (js ''Fat (g)'')),
       carbs := js_add (carbs t) (num_prop scaled (js ''Carbohydrate (g)'')),
       fiber := js_add (fiber t) (num_prop scaled (js ''Total fibre (g)'')),
       vitaminD := js_add (vitaminD t) (num_prop scaled (js (''Vitamin D ('' @ micro @ ''g)''))),
       vitaminA := js_add (vitaminA t) (num_prop scaled (js (''Vitamin A ('' @ micro @ ''g)''))),
       omega3 := js_add (omega3 t) (num_prop scaled (js ''Omega 3 (mg)'')),
       omega6 := js_add (omega6 t) (num_prop scaled (js ''Omega 6 (mg)'')),
       energyKJ := js_add (energyKJ t) (num_prop scaled (js ''Energy (KJ)'')),
       thiamine := js_add (thiamine t) (num_prop scaled (js ''Thiamine, B1 (mg)'')),
       riboflavin := js_add (riboflavin t) (num_prop scaled (js ''Riboflavin, B2 (mg)'')),
       niacin := js_add (niacin t) (num_prop scaled (js ''Niacin, B3 (mg)'')),
       pantothenicAcid := js_add (pantothenicAcid t) (num_prop scaled (js ''Pantothenic Acid B5 (mg)'')),
       pyridoxine := js_add (pyridoxine t) (num_prop scaled (js ''Pyridoxine B6 (mg)'')),
       biotin := js_add (biotin t) (num_prop scaled (js (''Biotin, B7 ('' @ micro @ ''g)''))),
       folate := js_add (folate t) (num_prop scaled (js (''Folate, B9 ('' @ micro @ ''g)''))),
       vitaminC := js_add (vitaminC t) (num_prop scaled (js ''Vitamin C (mg)'')),
       vitaminE := js_add (vitaminE t) (num_prop scaled (js ''VITE (mg)'')),
       vitaminK1 := js_add (vitaminK1 t) (num_prop scaled (js (''VITK1 ('' @ micro @ ''g)''))),
       iron := js_add (iron t) (num_prop scaled (js ''Iron (Fe) mg'')),
       calcium := js_add (calcium t) (num_prop scaled (js ''Calcium (Ca) mg'')),
       magnesium := js_add (magnesium t) (num_prop scaled (js ''Magnesium (Mg) mg'')),
       zinc := js_add (zinc t) (num_prop scaled (js ''Zinc (Zn) mg'')),
       selenium := js_add (selenium t) (num_prop scaled (js (''Selenium (Se) '' @ micro @ ''g''))),
       sodium := js_add (sodium t) (num_prop scaled (js ''Sodium (Na) mg'')),
       potassium := js_add (potassium t) (num_prop scaled (js ''Potassium (K) mg'')),
       phosphorus := js_add (phosphorus t) (num_prop scaled (js ''Phosphorus (P) mg'')),
       cobalt := js_add (cobalt t) (num_prop scaled (js ''Cobalt (Co) mg'')),
       mufa := js_add (mufa t) (num_prop scaled (js ''MUFA'')),
       pufa := js_add (pufa t) (num_prop scaled (js ''PUFA'')),
       saturatedFat := js_add (saturatedFat t) (num_prop scaled (js ''SATURATED FAT'')),
       totalSugar := js_add (totalSugar t) (num_prop scaled (js ''TOTAL SUGAR (g)''))\<rparr>"


definition item_row :: "jsval \<Rightarrow> jsval \<Rightarrow> ingredient \<Rightarrow> (jsstring \<rightharpoonup> number) \<Rightarrow> jsval list" where
  \<comment> \<open>the row pushed to \<^verbatim>\<open>recipeItems\<close>\<close>
  "item_row timestamp recipeId ing scaled =
     [timestamp, recipeId, lineNo ing, code ing, name ing, quantityInGrams ing,
      get_prop scaled (js ''Energy (Kcal)''),
      get_prop scaled (js ''Protein (g)''),
      get_prop scaled (js ''Fat (g)''),
      get_prop scaled (js ''Carbohydrate (g)''),
      get_prop scaled (js ''Total fibre (g)''),
      get_prop scaled (js (''Vitamin D ('' @ micro @ ''g)'')),
      get_prop scaled (js (''Vitamin A ('' @ micro @ ''g)'')),
      get_prop scaled (js ''Omega 3 (mg)''),
      get_prop scaled (js ''Omega 6 (mg)''),
      get_prop scaled (js ''Energy (KJ)''),
      get_prop scaled (js ''Thiamine, B1 (mg)''),
      get_prop scaled (js ''Riboflavin, B2 (mg)''),
      get_prop scaled (js ''Niacin, B3 (mg)''),
      get_prop scaled (js ''Pantothenic Acid B5 (mg)''),
      get_prop scaled (js ''Pyridoxine B6 (mg)''),
      get_prop scaled (js (''Biotin, B7 ('' @ micro @ ''g)'')),
      get_prop scaled (js (''Folate, B9 ('' @ micro @ ''g)'')),
      get_prop scaled (js ''Vitamin C (mg)''),
      get_prop scaled (js ''VITE (mg)''),
      get_prop scaled (js (''VITK1 ('' @ micro @ ''g)'')),
      get_prop scaled (js ''Iron (Fe) mg''),
      get_prop scaled (js ''Calcium (Ca) mg''),
      get_prop scaled (js ''Magnesium (Mg) mg''),
      get_prop scaled (js ''Zinc (Zn) mg''),
      get_prop scaled (js (''Selenium (Se) '' @ micro @ ''g'')),
      get_prop scaled (js ''Sodium (Na) mg''),
      get_prop scaled (js ''Potassium (K) mg''),
      get_prop scaled (js ''Phosphorus (P) mg''),
      get_prop scaled (js ''Cobalt (Co) mg''),
      get_prop scaled (js ''MUFA''),
      get_prop scaled (js ''PUFA''),
      get_prop scaled (js ''SATURATED FAT''),
      get_prop scaled (js ''TOTAL SUGAR (g)'')]"


text \<open>
  The loop over the ingredients: a line without a nutrient record is passed over by
  \<^verbatim>\<open>continue\<close>; any other line is scaled, added to the totals and pushed as a row.
\<close>

fun aggregate ::
  "jsval \<Rightarrow> jsval \<Rightarrow> nutrient_record list \<Rightarrow> ingredient list \<Rightarrow> totals \<times> jsval list list
     \<Rightarrow> totals \<times> jsval list list" where
  "aggregate timestamp recipeId nutrientData [] (t, recipeItems) = (t, recipeItems)"
| "aggregate timestamp recipeId nutrientData (ing # rest) (t, recipeItems) =
     (case find_nutrient nutrientData ing of
        None \<Rightarrow> aggregate timestamp recipeId nutrientData rest (t, recipeItems)
      | Some nutrient \<Rightarrow>
          aggregate timestamp recipeId nutrientData rest
            (add_scaled t (calculateScaledNutrition nutrient (to_number (quantityInGrams ing))),
             recipeItems @ [item_row timestamp recipeId ing
                              (calculateScaledNutrition nutrient (to_number (quantityInGrams ing)))]))"

definition omega3To6Ratio :: "totals \<Rightarrow> jsval" where
  "omega3To6Ratio t =
     (if js_gt (omega6 t) (Fin 0) then Str (toFixed (js_div (omega3 t) (omega6 t)) 2)
      else Num (Fin 0))"

text \<open>
  The other fields of the request body, copied to the recipe row as they come. The yield is
  copied as it comes too, and each division by it takes \<open>ToNumber\<close> of it.
\<close>

record recipe_info =
  recipeName :: jsval
  method_text :: jsval
  healthBenefits :: jsval
  precautions :: jsval
  source_text :: jsval
  mealTags :: jsval

definition recipeRow :: "jsval \<Rightarrow> jsval \<Rightarrow> recipe_info \<Rightarrow> jsval \<Rightarrow> totals \<Rightarrow> jsval list" where
  "recipeRow timestamp recipeId info recipeYield t =
     [timestamp, recipeId, recipeName info, recipeYield, method_text info,
      healthBenefits info, precautions info, source_text info, mealTags info,
      Str (toFixed (energy t) 2),
      Str (toFixed (protein t) 2),
      Str (toFixed (fat t) 2),
      Str (toFixed (carbs t) 2),
      Str (toFixed (fiber t) 2),
      Str (toFixed (vitaminD t) 2),
      Str (toFixed (vitaminA t) 2),
      Str (toFixed (omega3 t) 2),
      Str (toFixed (omega6 t) 2),
      omega3To6Ratio t,
      Str (toFixed (energyKJ t) 2),
      Str (toFixed (thiamine t) 3),
      Str (toFixed (riboflavin t) 3),
      Str (toFixed (niacin t) 2),
      Str (toFixed (pantothenicAcid t) 2),
      Str (toFixed (pyridoxine t) 3),
      Str (toFixed (biotin t) 2),
      Str (toFixed (folate t) 2),
      Str (toFixed (vitaminC t) 2),
      Str (toFixed (vitaminE t) 2),
      Str (toFixed (vitaminK1 t) 2),
      Str (toFixed (iron t) 2),
      Str (toFixed (calcium t) 2),
      Str (toFixed (magnesium t) 2),
      Str (toFixed (zinc t) 2),
      Str (toFixed (selenium t) 2),
      Str (toFixed (sodium t) 2),
      Str (toFixed (potassium t) 2),
      Str (toFixed (phosphorus t) 2),
      Str (toFixed (cobalt t) 3),
      Str (toFixed (mufa t) 2),
      Str (toFixed (pufa t) 2),
      Str (toFixed (saturatedFat t) 2),
      Str (toFixed (totalSugar t) 2),
      recipeYield,
      Str (toFixed (js_div (energy t) (to_number recipeYield)) 2),
      Str (toFixed (js_div (protein t) (to_number recipeYield)) 2),
      Str (toFixed (js_div (fat t) (to_number recipeYield)) 2),
      Str (toFixed (js_div (carbs t) (to_number recipeYield)) 2),
      Str (toFixed (js_div (fiber t) (to_number recipeYield)) 2)]"


record per_serving =
  ps_energy :: jsstring
  ps_protein :: jsstring
  ps_fat :: jsstring
  ps_carbs :: jsstring
  ps_fiber :: jsstring

record nutrition =
  total' :: totals
  perServing :: per_serving

definition response_nutrition :: "jsval \<Rightarrow> totals \<Rightarrow> nutrition" where
  \<comment> \<open>the \<^verbatim>\<open>nutrition\<close> object of the response\<close>
  "response_nutrition recipeYield t =
     \<lparr>total' = t,
      perServing =
        \<lparr>ps_energy = toFixed (js_div (energy t) (to_number recipeYield)) 2,
         ps_protein = toFixed (js_div (protein t) (to_number recipeYield)) 2,
         ps_fat = toFixed (js_div (fat t) (to_number recipeYield)) 2,
         ps_carbs = toFixed (js_div (carbs t) (to_number recipeYield)) 2,
         ps_fiber = toFixed (js_div (fiber t) (to_number recipeYield)) 2\<rparr>\<rparr>"

text \<open>
  What the handler of \<^verbatim>\<open>POST /api/recipes\<close> produces from the nutrient data and the request: the
  row appended to the recipe sheet, the rows appended to the item sheet (none is appended when
  the list is empty) and the \<^verbatim>\<open>nutrition\<close> object of the response. The timestamp and the recipe
  identifier come from the clock and the identifier generator.
\<close>

record outcome =
  recipe_rows :: "jsval list list"
  item_rows :: "jsval list list"
  response :: nutrition

definition create_recipe ::
  "jsval \<Rightarrow> jsval \<Rightarrow> nutrient_record list \<Rightarrow> recipe_info \<Rightarrow> jsval \<Rightarrow> ingredient list \<Rightarrow> outcome" where
  "create_recipe timestamp recipeId nutrientData info recipeYield ingredients =
     (case aggregate timestamp recipeId nutrientData ingredients (totalNutrition, []) of
        (t, recipeItems) \<Rightarrow>
          \<lparr>recipe_rows = [recipeRow timestamp recipeId info recipeYield t],
           item_rows = recipeItems,
           response = response_nutrition recipeYield t\<rparr>)"

text \<open>
  The columns of the two rows that hold the 33 nutrient fields: each field of the totals with
  its column in the item row, its column in the recipe row and the number of decimals the
  recipe row prints it with.
\<close>

definition nutrient_columns :: "((totals \<Rightarrow> number) \<times> nat \<times> nat \<times> nat) list" where
  "nutrient_columns =
    [(energy, 6, 9, 2), (protein, 7, 10, 2), (fat, 8, 11, 2), (carbs, 9, 12, 2),
     (fiber, 10, 13, 2), (vitaminD, 11, 14, 2), (vitaminA, 12, 15, 2), (omega3, 13, 16, 2),
     (omega6, 14, 17, 2), (energyKJ, 15, 19, 2), (thiamine, 16, 20, 3), (riboflavin, 17, 21, 3),
     (niacin, 18, 22, 2), (pantothenicAcid, 19, 23, 2), (pyridoxine, 20, 24, 3),
     (biotin, 21, 25, 2), (folate, 22, 26, 2), (vitaminC, 23, 27, 2), (vitaminE, 24, 28, 2),
     (vitaminK1, 25, 29, 2), (iron, 26, 30, 2), (calcium, 27, 31, 2), (magnesium, 28, 32, 2),
     (zinc, 29, 33, 2), (selenium, 30, 34, 2), (sodium, 31, 35, 2), (potassium, 32, 36, 2),
     (phosphorus, 33, 37, 2), (cobalt, 34, 38, 3), (mufa, 35, 39, 2), (pufa, 36, 40, 2),
     (saturatedFat, 37, 41, 2), (totalSugar, 38, 42, 2)]"

section \<open>Decimal numerals\<close>

text \<open>
  What it means for a String to be a Number rounded to \<open>f\<close> decimal places: it has \<open>f\<close> code
  units after its decimal point, and the decimal numeral it spells is within half a unit of
  the last place of the Number.
\<close>

definition decimals :: "jsstring \<Rightarrow> nat" where
  "decimals s = length (drop 1 (dropWhile (\<lambda>c. c \<noteq> 46) s))"

definition decimal_value :: "jsstring \<Rightarrow> real" where
  "decimal_value s = (case signed s of (neg, u) \<Rightarrow>
     (if neg then - 1 else 1) * real (digits_val (filter is_digit u)) / 10 ^ decimals s)"

definition rounded_to :: "nat \<Rightarrow> number \<Rightarrow> jsstring \<Rightarrow> bool" where
  "rounded_to f x s = (decimals s = f \<and> \<bar>decimal_value s - mag x\<bar> \<le> 1 / (2 * 10 ^ f))"

section \<open>Reading the rows back\<close>

text \<open>
  The Number in a cell of a row, the floating-point sum of a column in row order, and the rows
  an ingredient line is expected to emit: none without a nutrient record, else its one row.
\<close>

fun cell_number :: "jsval \<Rightarrow> number" where
  "cell_number (Num v) = v"
| "cell_number _ = NaN"

definition column_sum :: "nat \<Rightarrow> jsval list list \<Rightarrow> number" where
  "column_sum i rows = foldl js_add (Fin 0) (map (\<lambda>row. cell_number (row ! i)) rows)"

definition expected_rows :: "jsval \<Rightarrow> jsval \<Rightarrow> nutrient_record list \<Rightarrow> ingredient \<Rightarrow> jsval list list" where
  "expected_rows timestamp recipeId nutrientData ing =
     (case find_nutrient nutrientData ing of
        None \<Rightarrow> []
      | Some nutrient \<Rightarrow>
          [item_row timestamp recipeId ing (calculateScaledNutrition nutrient (to_number (quantityInGrams ing)))])"

section \<open>Non-negative contributions\<close>

text \<open>
  An ingredient line contributes non-negative values when it has no nutrient record or every
  scaled field is \<open>\<ge> 0\<close>. A running total of such values is \<open>settled\<close>: it is \<open>+Infinity\<close> or
  a non-negative binary64 number.
\<close>

definition contributions_nonneg :: "nutrient_record list \<Rightarrow> ingredient \<Rightarrow> bool" where
  "contributions_nonneg nutrientData ing =
     (case find_nutrient nutrientData ing of
        None \<Rightarrow> True
      | Some nutrient \<Rightarrow>
          list_all (\<lambda>f. js_le (Fin 0) (num_prop (calculateScaledNutrition nutrient (to_number (quantityInGrams ing))) f))
            numericFields)"

definition settled :: "number \<Rightarrow> bool" where
  "settled v = (v = PInf \<or> (0 \<le> mag v \<and> v = Fin (mag v) \<and> to_grid (quantum (mag v)) (mag v) = mag v))"

definition is_double :: "number \<Rightarrow> bool" where
  \<comment> \<open>a Number whose finite value rounding leaves alone\<close>
  "is_double v = (rnd (mag v) = Fin (mag v))"

section \<open>Sample data\<close>

text \<open>A nutrient record with 200 kcal per 100 g, as in the end-to-end example.\<close>

definition sample_record :: nutrient_record where
  "sample_record = [js ''Food code'' \<mapsto> js ''A001'', js ''Energy (Kcal)'' \<mapsto> js ''200'']"

text \<open>Two ingredient lines, the second with a code that has no nutrient record.\<close>

definition sample_line :: ingredient where
  "sample_line = \<lparr>lineNo = Num (Fin 1), code = Str (js ''A001''), name = Str (js ''Rice''),
                   quantityInGrams = Num (Fin 50)\<rparr>"

definition unknown_line :: ingredient where
  "unknown_line = \<lparr>lineNo = Num (Fin 2), code = Str (js ''Z999''), name = Str (js ''Salt''),
                    quantityInGrams = Num (Fin 5)\<rparr>"

definition bare_line :: ingredient where
  \<comment> \<open>a line of the sample record without \<^verbatim>\<open>quantityInGrams\<close>\<close>
  "bare_line = \<lparr>lineNo = Num (Fin 1), code = Str (js ''A001''), name = Str (js ''Rice''),
                 quantityInGrams = Undefined\<rparr>"

definition sample_info :: recipe_info where
  "sample_info = \<lparr>recipeName = Str (js ''Rice''), method_text = Undefined,
                   healthBenefits = Undefined, precautions = Undefined, source_text = Undefined,
                   mealTags = Undefined\<rparr>"

text \<open>A record with 0.25 kcal per 100 g, and totals to try the formatter on.\<close>

definition quarter_record :: nutrient_record where
  "quarter_record = [js ''Food code'' \<mapsto> js ''A001'', js ''Energy (Kcal)'' \<mapsto> js ''0.25'']"

definition eighth_totals :: totals where
  "eighth_totals = totalNutrition\<lparr>energy := Fin (1 / 8), thiamine := Fin (1 / 8)\<rparr>"


text \<open>Totals with an energy and an omega-3 total of \<open>10 ^ 21\<close>.\<close>

definition large_totals :: totals where
  "large_totals = totalNutrition\<lparr>energy := Fin (10 ^ 21), omega3 := Fin (10 ^ 21), omega6 := Fin 1\<rparr>"


text \<open>Three records with 0.1, 0.2 and 0.3 kcal per 100 g, and a line of 100 g of a code.\<close>

definition tenth_record :: "string \<Rightarrow> string \<Rightarrow> nutrient_record" where
  "tenth_record c e = [js ''Food code'' \<mapsto> js c, js ''Energy (Kcal)'' \<mapsto> js e]"

definition tenths_data :: "nutrient_record list" where
  "tenths_data = [tenth_record ''A001'' ''0.1'', tenth_record ''A002'' ''0.2'',
                  tenth_record ''A003'' ''0.3'']"

definition whole_line :: "string \<Rightarrow> ingredient" where
  "whole_line c = \<lparr>lineNo = Undefined, code = Str (js c), name = Undefined,
                    quantityInGrams = Num (Fin 100)\<rparr>"

section \<open>Evaluation and basic facts\<close>

lemma bitlen_0 [simp]: "bitlen 0 = 0"
  by (subst bitlen.simps) simp

lemma bitlen_1 [simp]: "bitlen (Suc 0) = Suc 0"
  by (subst bitlen.simps) simp

lemma bitlen_One [simp]: "bitlen (numeral Num.One) = Suc 0"
  by simp

lemma bitlen_double:
  assumes "0 < y" and "x = 2 * y \<or> x = 2 * y + 1"
  shows "bitlen x = Suc (bitlen y)"
proof -
  have "x div 2 = y" and "x \<noteq> 0" using assms by auto
  then show ?thesis by (subst bitlen.simps) simp
qed

lemma bitlen_Bit0 [simp]: "bitlen (numeral (Num.Bit0 n)) = Suc (bitlen (numeral n))"
  by (rule bitlen_double) (simp_all only: numeral_Bit0_eq_double [of n] zero_less_numeral simp_thms)

lemma bitlen_Bit1 [simp]: "bitlen (numeral (Num.Bit1 n)) = Suc (bitlen (numeral n))"
  by (rule bitlen_double) (simp_all only: numeral_Bit1_eq_inc_double [of n] zero_less_numeral simp_thms)

lemma bits_numeral [simp]: "bits (numeral n) = int (bitlen (numeral n))"
  by (simp add: bits_def)

lemma bits_0 [simp]: "bits 0 = 0"
  by (simp add: bits_def)

lemma bits_1 [simp]: "bits 1 = 1"
  by (simp add: bits_def)

lemma bits_nonpos: "k \<le> 0 \<Longrightarrow> bits k = 0"
  by (simp add: bits_def)

lemmas rnd_eval = rnd_def pack_def quantum_def expo_def to_grid_def round_half_even_def tie_even_def
  ilog2_def inf_of_def zero_of_def

lemmas arith_eval = js_add_def js_mul_def js_div_def rnd_eval

lemmas fixed_eval = toFixed_def unsigned_fixed_def fixed_digits_def dec.simps js_def

lemmas parse_eval = parseFloat_def signed_def fraction_part_def exponent_part_def str_decimal_def
  is_white_def is_digit_def digits_val_def js_def micro_def field_text_def or_zero_def truthy_def

lemma str_lt_lexord: "str_lt a b \<longleftrightarrow> a < b"
  by (induction a b rule: str_lt.induct) auto

section \<open>Facts about rounding\<close>

lemma bitlen_bounds: "0 < n \<Longrightarrow> 2 ^ (bitlen n - 1) \<le> n \<and> n < 2 ^ bitlen n"
proof (induction n rule: bitlen.induct)
  case (1 n)
  show ?case
  proof (cases "n div 2 = 0")
    case True
    then have "n = 1" using 1(2) by linarith
    then show ?thesis by simp
  next
    case False
    then have h: "2 ^ (bitlen (n div 2) - 1) \<le> n div 2 \<and> n div 2 < 2 ^ bitlen (n div 2)"
      using 1 by simp
    have pos: "0 < bitlen (n div 2)" using False by (subst bitlen.simps) simp
    then obtain m where m: "bitlen (n div 2) = Suc m" by (cases "bitlen (n div 2)") auto
    have b: "bitlen n = Suc (Suc m)" using 1(2) m by (subst bitlen.simps) simp
    have "2 * 2 ^ m \<le> 2 * (n div 2)" using h by (simp add: m)
    also have "\<dots> \<le> n" by simp
    finally have lo: "2 ^ Suc m \<le> n" by simp
    have "n < 2 * (n div 2) + 2" by linarith
    also have "\<dots> \<le> 2 * 2 ^ Suc m" using h unfolding m by linarith
    finally have hi: "n < 2 ^ Suc (Suc m)" by simp
    show ?thesis using lo hi by (simp add: b)
  qed
qed

lemma bits_bounds:
  assumes "0 < k"
  shows "2 ^ nat (bits k - 1) \<le> k" and "k < 2 ^ nat (bits k)" and "1 \<le> bits k"
proof -
  define n where "n = nat k"
  have n: "0 < n" and k: "k = int n" using assms by (simp_all add: n_def)
  note b = bitlen_bounds [OF n]
  have pos: "0 < bitlen n" using n by (subst bitlen.simps) simp
  have c: "nat (bits k - 1) = bitlen n - 1" "nat (bits k) = bitlen n"
    using pos by (simp_all add: bits_def n_def)
  have "int (2 ^ (bitlen n - 1)) \<le> int n" using b by (simp only: of_nat_le_iff)
  then show "2 ^ nat (bits k - 1) \<le> k" unfolding c unfolding k by simp
  have "int n < int (2 ^ bitlen n)" using b by (simp only: of_nat_less_iff)
  then show "k < 2 ^ nat (bits k)" unfolding c unfolding k by simp
  show "1 \<le> bits k" using pos by (simp add: bits_def n_def)
qed

lemma powi_neg: "0 \<le> j \<Longrightarrow> (2::real) powi (- j) = 1 / 2 ^ nat j"
  by (simp add: power_int_minus_divide power_int_nonneg_exp)

lemma ilog2_bounds:
  assumes "0 < a"
  shows "2 powi (ilog2 a) \<le> a" and "a < 2 powi (ilog2 a + 1)"
proof -
  have "2 powi (ilog2 a) \<le> a \<and> a < 2 powi (ilog2 a + 1)"
  proof (cases "1 \<le> a")
    case True
    define n where "n = \<lfloor>a\<rfloor>"
    have n: "0 < n" using True by (simp add: n_def)
    have e: "ilog2 a = bits n - 1" using True by (simp add: ilog2_def n_def)
    have nn: "0 \<le> bits n - 1" using bits_bounds(3) [OF n] by simp
    have "(2::real) powi (bits n - 1) = of_int (2 ^ nat (bits n - 1))"
      using nn by (simp add: power_int_nonneg_exp)
    also have "\<dots> \<le> of_int n" using bits_bounds(1) [OF n] by (simp only: of_int_le_iff)
    also have "\<dots> \<le> a" by (simp add: n_def)
    finally have lo: "2 powi (bits n - 1) \<le> a" .
    have "a < of_int (n + 1)" by (simp add: n_def)
    also have "\<dots> \<le> of_int (2 ^ nat (bits n))"
      using bits_bounds(2) [OF n] by (simp only: of_int_le_iff)
    also have "\<dots> = (2::real) powi (bits n)"
      using nn by (simp add: power_int_nonneg_exp)
    finally have hi: "a < 2 powi (bits n)" .
    from lo hi show ?thesis by (simp add: e)
  next
    case False
    define b where "b = 1 / a"
    define m where "m = \<lceil>b\<rceil> - 1"
    define k where "k = bits m"
    have b1: "1 < b" using False assms by (simp add: b_def)
    have m: "0 < m" using b1 by (simp add: m_def)
    have e: "ilog2 a = - k" using False by (simp add: ilog2_def k_def m_def b_def)
    have k1: "1 \<le> k" using bits_bounds(3) [OF m] by (simp add: k_def)
    have mb: "of_int m < b" unfolding m_def by linarith
    have bm: "b \<le> of_int (m + 1)" unfolding m_def by simp
    have "(2::real) ^ nat (k - 1) = of_int (2 ^ nat (k - 1))" by simp
    also have "\<dots> \<le> of_int m"
      using bits_bounds(1) [OF m] unfolding k_def by (simp only: of_int_le_iff)
    also have "\<dots> < b" by (rule mb)
    finally have p1: "2 ^ nat (k - 1) < b" .
    have "b \<le> of_int (m + 1)" by (rule bm)
    also have "\<dots> \<le> of_int (2 ^ nat k)"
      using bits_bounds(2) [OF m] unfolding k_def by (simp only: of_int_le_iff)
    also have "\<dots> = (2::real) ^ nat k" by simp
    finally have p2: "b \<le> 2 ^ nat k" .
    have a: "a = 1 / b" using assms by (simp add: b_def)
    have b0: "0 < b" using b1 by simp
    have "(2::real) powi (- k) = 1 / 2 ^ nat k"
      by (rule powi_neg) (use k1 in simp)
    also have "\<dots> \<le> 1 / b" using p2 b0 by (simp add: frac_le)
    finally have lo: "2 powi (- k) \<le> a" by (simp add: a)
    have eq: "- k + 1 = - (k - 1)" by simp
    have h: "(2::real) powi (- (k - 1)) = 1 / 2 ^ nat (k - 1)"
      by (rule powi_neg) (use k1 in simp)
    have "a = 1 / b" by (rule a)
    also have "\<dots> < 1 / 2 ^ nat (k - 1)" using p1 by (simp add: frac_less2)
    also have "\<dots> = (2::real) powi (- k + 1)"
      unfolding eq by (rule h [symmetric])
    finally have hi: "a < 2 powi (- k + 1)" .
    from lo hi show ?thesis by (simp add: e)
  qed
  then show "2 powi (ilog2 a) \<le> a" and "a < 2 powi (ilog2 a + 1)" by simp_all
qed

lemma tie_even_mono: "d \<le> d' \<Longrightarrow> tie_even f d \<le> tie_even f d'"
  by (simp add: tie_even_def)

lemma tie_even_range: "0 \<le> d \<Longrightarrow> f \<le> tie_even f d \<and> tie_even f d \<le> f + 1"
  by (simp add: tie_even_def)

lemma round_half_even_of_int: "round_half_even (of_int n) = n"
  by (simp add: round_half_even_def tie_even_def)

lemma round_half_even_mono:
  assumes "x \<le> y"
  shows "round_half_even x \<le> round_half_even y"
proof (cases "\<lfloor>x\<rfloor> = \<lfloor>y\<rfloor>")
  case True
  then show ?thesis
    using assms by (simp add: round_half_even_def tie_even_mono)
next
  case False
  then have "\<lfloor>x\<rfloor> + 1 \<le> \<lfloor>y\<rfloor>"
    using floor_mono [OF assms] by linarith
  moreover have "round_half_even x \<le> \<lfloor>x\<rfloor> + 1"
    using tie_even_range [of "x - of_int \<lfloor>x\<rfloor>" "\<lfloor>x\<rfloor>"] by (simp add: round_half_even_def)
  moreover have "\<lfloor>y\<rfloor> \<le> round_half_even y"
    using tie_even_range [of "y - of_int \<lfloor>y\<rfloor>" "\<lfloor>y\<rfloor>"] by (simp add: round_half_even_def)
  ultimately show ?thesis by linarith
qed

lemma round_half_even_le: "x \<le> of_int n \<Longrightarrow> round_half_even x \<le> n"
  using round_half_even_mono [of x "of_int n"] by (simp add: round_half_even_of_int)

lemma round_half_even_ge: "of_int n \<le> x \<Longrightarrow> n \<le> round_half_even x"
  using round_half_even_mono [of "of_int n" x] by (simp add: round_half_even_of_int)

lemma pow2_mono: "i \<le> j \<Longrightarrow> (2::real) powi i \<le> 2 powi j"
  by (rule power_int_increasing) simp_all

lemma pow2_strict_mono: "i < j \<Longrightarrow> (2::real) powi i < 2 powi j"
  by (rule power_int_strict_increasing) simp_all

lemma pow2_less_imp: "(2::real) powi i < 2 powi j \<Longrightarrow> i < j"
  using pow2_mono [of j i] by (cases "i < j") auto

lemma pow2_le_imp: "(2::real) powi i \<le> 2 powi j \<Longrightarrow> i \<le> j"
  using pow2_strict_mono [of j i] by (cases "i \<le> j") auto

lemma ilog2_unique:
  assumes "2 powi e \<le> a" and "a < 2 powi (e + 1)"
  shows "ilog2 a = e"
proof -
  have "(0::real) < 2 powi e" by simp
  then have a: "0 < a" using assms(1) by linarith
  note b = ilog2_bounds [OF a]
  have "2 powi e < (2::real) powi (ilog2 a + 1)" using assms(1) b(2) by linarith
  then have "e < ilog2 a + 1" by (rule pow2_less_imp)
  moreover have "2 powi (ilog2 a) < (2::real) powi (e + 1)" using assms(2) b(1) by linarith
  then have "ilog2 a < e + 1" by (rule pow2_less_imp)
  ultimately show ?thesis by linarith
qed

lemma ilog2_le:
  assumes "0 < a" and "a \<le> 2 powi k"
  shows "ilog2 a \<le> k"
proof -
  have "2 powi (ilog2 a) \<le> (2::real) powi k"
    using ilog2_bounds(1) [OF assms(1)] assms(2) by linarith
  then show ?thesis by (rule pow2_le_imp)
qed

lemma ilog2_less:
  assumes "0 < a" and "a < 2 powi k"
  shows "ilog2 a < k"
proof -
  have "2 powi (ilog2 a) < (2::real) powi k"
    using ilog2_bounds(1) [OF assms(1)] assms(2) by linarith
  then show ?thesis by (rule pow2_less_imp)
qed

lemma ilog2_mono:
  assumes "0 < a" and "a \<le> b"
  shows "ilog2 a \<le> ilog2 b"
proof -
  have b: "0 < b" using assms by linarith
  have "2 powi (ilog2 a) < (2::real) powi (ilog2 b + 1)"
    using ilog2_bounds(1) [OF assms(1)] ilog2_bounds(2) [OF b] assms(2) by linarith
  then have "ilog2 a < ilog2 b + 1" by (rule pow2_less_imp)
  then show ?thesis by simp
qed

lemma pow2_split: "j \<le> k \<Longrightarrow> (2::real) powi k = of_int (2 ^ nat (k - j)) * 2 powi j"
proof -
  assume "j \<le> k"
  then have "(2::real) powi (k - j) = of_int (2 ^ nat (k - j))"
    by (simp add: power_int_nonneg_exp)
  moreover have "(2::real) powi k = 2 powi (k - j) * 2 powi j"
    using power_int_add [of "2::real" "k - j" j] by simp
  ultimately show ?thesis by simp
qed

lemma quantum_expo: "quantum a = 2 powi (expo a - 52)"
  by (simp add: quantum_def)

lemma quantum_pos: "0 < quantum a"
  by (simp add: quantum_def)

lemma to_grid_le:
  assumes "a \<le> 2 powi k" and "j \<le> k"
  shows "to_grid (2 powi j) a \<le> 2 powi k"
proof -
  let ?u = "(2::real) powi j"
  let ?N = "(2::int) ^ nat (k - j)"
  have u: "0 < ?u" by simp
  have s: "2 powi k = of_int ?N * ?u" by (rule pow2_split [OF assms(2)])
  have "a / ?u \<le> of_int ?N" using assms(1) u unfolding s by (simp add: pos_divide_le_eq)
  then have "round_half_even (a / ?u) \<le> ?N" by (rule round_half_even_le)
  then have "of_int (round_half_even (a / ?u)) \<le> (of_int ?N :: real)" by (simp only: of_int_le_iff)
  then have "of_int (round_half_even (a / ?u)) * ?u \<le> of_int ?N * ?u"
    using u by (simp only: mult_le_cancel_right_pos)
  then show ?thesis unfolding to_grid_def s .
qed

lemma to_grid_ge:
  assumes "2 powi k \<le> a" and "j \<le> k"
  shows "2 powi k \<le> to_grid (2 powi j) a"
proof -
  let ?u = "(2::real) powi j"
  let ?N = "(2::int) ^ nat (k - j)"
  have u: "0 < ?u" by simp
  have s: "2 powi k = of_int ?N * ?u" by (rule pow2_split [OF assms(2)])
  have "of_int ?N \<le> a / ?u" using assms(1) u unfolding s by (simp add: pos_le_divide_eq)
  then have "?N \<le> round_half_even (a / ?u)" by (rule round_half_even_ge)
  then have "(of_int ?N :: real) \<le> of_int (round_half_even (a / ?u))" by (simp only: of_int_le_iff)
  then have "of_int ?N * ?u \<le> of_int (round_half_even (a / ?u)) * ?u"
    using u by (simp only: mult_le_cancel_right_pos)
  then show ?thesis unfolding to_grid_def s .
qed

lemma to_grid_nonneg: "0 \<le> a \<Longrightarrow> 0 < u \<Longrightarrow> 0 \<le> to_grid u a"
proof -
  assume "0 \<le> a" "0 < u"
  then have "of_int 0 \<le> a / u" by simp
  then have "0 \<le> round_half_even (a / u)" by (rule round_half_even_ge)
  then show ?thesis using \<open>0 < u\<close> by (simp add: to_grid_def)
qed

lemma expo_ge: "- 1022 \<le> expo a"
  by (simp add: expo_def)

lemma expo_mono: "0 < a \<Longrightarrow> a \<le> b \<Longrightarrow> expo a \<le> expo b"
  using ilog2_mono [of a b] by (simp add: expo_def)

lemma less_pow2_expo:
  assumes "0 < a"
  shows "a < 2 powi (expo a + 1)"
proof -
  have "ilog2 a + 1 \<le> expo a + 1" by (simp add: expo_def)
  then have "(2::real) powi (ilog2 a + 1) \<le> 2 powi (expo a + 1)" by (rule pow2_mono)
  then show ?thesis using ilog2_bounds(2) [OF assms] by linarith
qed

lemma to_grid_fixed: "0 < u \<Longrightarrow> to_grid u (of_int n * u) = of_int n * u"
  by (simp add: to_grid_def round_half_even_of_int)

lemma to_grid_quantum_mono:
  assumes t: "0 < t" and ty: "t \<le> y" and fixed: "to_grid (quantum t) t = t"
  shows "t \<le> to_grid (quantum y) y"
proof -
  have le: "expo t \<le> expo y" by (rule expo_mono [OF t ty])
  have y: "0 < y" using t ty by linarith
  show ?thesis
  proof (cases "expo t = expo y")
    case True
    let ?u = "quantum y"
    have u: "0 < ?u" by (rule quantum_pos)
    have q: "quantum t = ?u" by (simp add: quantum_expo True)
    define n where "n = round_half_even (t / ?u)"
    have tn: "t = of_int n * ?u" using fixed unfolding q to_grid_def n_def by simp
    have "of_int n \<le> y / ?u" using ty u by (simp add: tn pos_le_divide_eq)
    then have "n \<le> round_half_even (y / ?u)" by (rule round_half_even_ge)
    then have "(of_int n :: real) \<le> of_int (round_half_even (y / ?u))" by (simp only: of_int_le_iff)
    then have "of_int n * ?u \<le> of_int (round_half_even (y / ?u)) * ?u"
      using u by (simp only: mult_le_cancel_right_pos)
    then show ?thesis unfolding to_grid_def tn [symmetric] .
  next
    case False
    then have lt: "expo t < expo y" using le by simp
    have "- 1022 < expo y" using lt expo_ge [of t] by linarith
    then have ey: "expo y = ilog2 y" by (simp add: expo_def max_def split: if_splits)
    have "2 powi (expo y) \<le> y" unfolding ey by (rule ilog2_bounds(1) [OF y])
    then have "2 powi (expo y) \<le> to_grid (2 powi (expo y - 52)) y"
      by (rule to_grid_ge) simp
    moreover have "t < 2 powi (expo t + 1)" by (rule less_pow2_expo [OF t])
    moreover have "(2::real) powi (expo t + 1) \<le> 2 powi (expo y)"
      by (rule pow2_mono) (use lt in simp)
    ultimately show ?thesis by (simp add: quantum_expo)
  qed
qed

lemma to_grid_quantum_idem:
  assumes a: "0 < a" and g: "g = to_grid (quantum a) a" and pos: "0 < g"
  shows "to_grid (quantum g) g = g"
proof -
  let ?e = "expo a"
  let ?u = "(2::real) powi (?e - 52)"
  have u: "0 < ?u" by simp
  define n where "n = round_half_even (a / ?u)"
  have gn: "g = of_int n * ?u" by (simp add: g quantum_expo to_grid_def n_def)
  have "a \<le> 2 powi (?e + 1)" using less_pow2_expo [OF a] by simp
  then have "to_grid (2 powi (?e - 52)) a \<le> 2 powi (?e + 1)" by (rule to_grid_le) simp
  then have up: "g \<le> 2 powi (?e + 1)" by (simp add: g quantum_expo)
  show ?thesis
  proof (cases "g = 2 powi (?e + 1)")
    case True
    have "ilog2 g = ?e + 1" unfolding True by (rule ilog2_unique) (simp_all add: pow2_strict_mono)
    then have "expo g = ?e + 1" using expo_ge [of a] by (simp add: expo_def)
    then have q: "quantum g = 2 powi (?e - 51)" by (simp add: quantum_expo)
    have "g = of_int (2 ^ nat ((?e + 1) - (?e - 51))) * 2 powi (?e - 51)"
      unfolding True by (rule pow2_split) simp
    then obtain m :: int where "g = of_int m * 2 powi (?e - 51)" by blast
    then show ?thesis unfolding q using to_grid_fixed [of "2 powi (?e - 51)" m] by simp
  next
    case False
    then have lt: "g < 2 powi (?e + 1)" using up by simp
    have il: "ilog2 g \<le> ?e" using ilog2_less [OF pos lt] by simp
    have "expo g = ?e"
    proof (cases "?e = - 1022")
      case True
      then show ?thesis using il by (simp add: expo_def)
    next
      case False
      then have "- 1022 < ?e" using expo_ge [of a] by linarith
      then have ea: "?e = ilog2 a" by (simp add: expo_def max_def split: if_splits)
      have "2 powi ?e \<le> a" unfolding ea by (rule ilog2_bounds(1) [OF a])
      then have "2 powi ?e \<le> to_grid (2 powi (?e - 52)) a" by (rule to_grid_ge) simp
      then have "2 powi ?e \<le> g" by (simp add: g quantum_expo)
      then have "ilog2 g = ?e" using lt by (rule ilog2_unique)
      then show ?thesis by (simp add: expo_def)
    qed
    then have q: "quantum g = ?u" by (simp add: quantum_expo)
    show ?thesis unfolding q using to_grid_fixed [OF u, of n] gn by simp
  qed
qed

section \<open>Facts about scaling and aggregation\<close>

lemma fold_upd_apply:
  "fold (\<lambda>f m. m(f \<mapsto> g f)) fs m0 k = (if k \<in> set fs then Some (g k) else m0 k)"
  by (induction fs arbitrary: m0) auto

lemma scaled_apply:
  "calculateScaledNutrition n q k =
     (if k \<in> set numericFields
      then Some (js_mul (or_zero (parseFloat (field_text n k))) (js_div q (Fin 100)))
      else None)"
  unfolding calculateScaledNutrition_def by (rule trans [OF fold_upd_apply]) simp

lemma length_numericFields: "length numericFields = 33"
  by (simp add: numericFields_def)

lemma distinct_numericFields: "distinct numericFields"
  by (simp add: numericFields_def js_def micro_def)

lemma aggregate_append:
  "aggregate ts rid nd (xs @ ys) st = aggregate ts rid nd ys (aggregate ts rid nd xs st)"
proof (induction xs arbitrary: st)
  case Nil
  show ?case by (cases st) simp
next
  case (Cons x xs)
  show ?case by (cases st) (simp add: Cons split: option.split)
qed

lemma aggregate_skip:
  assumes "find_nutrient nd ing = None"
  shows "aggregate ts rid nd (pre @ ing # post) st = aggregate ts rid nd (pre @ post) st"
proof -
  obtain t rows where s: "aggregate ts rid nd pre st = (t, rows)" by (cases "aggregate ts rid nd pre st")
  show ?thesis by (simp add: aggregate_append s assms)
qed

lemma pack_not_NaN: "pack s r \<noteq> NaN"
  by (simp add: pack_def inf_of_def zero_of_def)

lemma rnd_not_NaN: "rnd x \<noteq> NaN"
  by (simp add: rnd_def pack_not_NaN)

lemma to_grid_zero: "to_grid u 0 = 0"
  by (simp add: to_grid_def round_half_even_def tie_even_def)

lemma to_grid_quantum_le:
  assumes "0 \<le> a" and "a \<le> 2 powi k" and "- 1022 \<le> k"
  shows "to_grid (quantum a) a \<le> 2 powi k"
proof (cases "a = 0")
  case True
  then show ?thesis by (simp add: to_grid_zero)
next
  case False
  then have a: "0 < a" using assms(1) by simp
  have "expo a \<le> k" using ilog2_le [OF a assms(2)] assms(3) by (simp add: expo_def)
  then have "expo a - 52 \<le> k" by simp
  then show ?thesis unfolding quantum_expo by (rule to_grid_le [OF assms(2)])
qed

lemma rnd_not_inf:
  assumes "\<bar>x\<bar> \<le> 2 powi k" and "- 1022 \<le> k" and "k < 1024"
  shows "\<not> is_inf (rnd x)"
proof -
  have "to_grid (quantum \<bar>x\<bar>) \<bar>x\<bar> \<le> 2 powi k"
    by (rule to_grid_quantum_le) (use assms in simp_all)
  moreover have "(2::real) powi k < 2 powi 1024" by (rule pow2_strict_mono [OF assms(3)])
  ultimately have "\<not> 2 ^ 1024 \<le> to_grid (quantum \<bar>x\<bar>) \<bar>x\<bar>" by simp
  then show ?thesis by (simp add: rnd_def pack_def zero_of_def)
qed

lemma div_100_finite:
  assumes "is_finite q"
  shows "js_div q (Fin 100) \<noteq> NaN" and "\<not> is_inf (js_div q (Fin 100))"
proof -
  have "js_div q (Fin 100) \<noteq> NaN \<and> \<not> is_inf (js_div q (Fin 100))"
  proof (cases q)
    case (Fin r)
    then have r: "\<bar>r\<bar> < 2 ^ 1024" using assms by simp
    have "\<bar>r / 100\<bar> \<le> 2 powi 1024" using r by simp
    have "\<bar>r / 100\<bar> \<le> \<bar>r\<bar> / 64" by (simp add: field_simps)
    also have "\<dots> \<le> 2 ^ 1024 / 64" using r by simp
    also have "\<dots> = 2 powi 1018" by simp
    finally have "\<not> is_inf (rnd (r / 100))" by (rule rnd_not_inf) simp_all
    then show ?thesis using Fin by (simp add: js_div_def zero_of_def rnd_not_NaN)
  qed (use assms in \<open>simp_all add: js_div_def zero_of_def\<close>)
  then show "js_div q (Fin 100) \<noteq> NaN" and "\<not> is_inf (js_div q (Fin 100))" by simp_all
qed

lemma or_zero_not_NaN: "or_zero v \<noteq> NaN"
  by (simp add: or_zero_def truthy_def)

lemma or_zero_inf: "is_inf (or_zero v) = is_inf v"
  by (cases v) (simp_all add: or_zero_def truthy_def)

lemma js_mul_not_NaN:
  "x \<noteq> NaN \<Longrightarrow> y \<noteq> NaN \<Longrightarrow> \<not> is_inf x \<Longrightarrow> \<not> is_inf y \<Longrightarrow> js_mul x y \<noteq> NaN"
  by (simp add: js_mul_def zero_of_def rnd_not_NaN)

lemma parseFloat_undefined: "parseFloat (js ''undefined'') = NaN"
  by (simp add: parse_eval)

lemma absent_or_non_numeric:
  "n f = None \<or> parseFloat (field_text n f) = NaN \<Longrightarrow> or_zero (parseFloat (field_text n f)) = Fin 0"
  by (auto simp: field_text_def parseFloat_undefined or_zero_def truthy_def)

lemma scaled_not_NaN:
  assumes "is_finite q" and "f \<in> set numericFields" and "\<not> is_inf (parseFloat (field_text n f))"
  shows "num_prop (calculateScaledNutrition n q) f \<noteq> NaN"
  using assms div_100_finite [OF assms(1)]
  by (simp add: num_prop_def scaled_apply js_mul_not_NaN or_zero_not_NaN or_zero_inf)

lemma cell_number_get_prop: "cell_number (get_prop s k) = num_prop s k"
  by (simp add: get_prop_def num_prop_def split: option.split)

lemma column_step:
  "list_all (\<lambda>(g, i, r, d). g (add_scaled t s) = js_add (g t) (cell_number (item_row ts rid ing s ! i)))
     nutrient_columns"
  by (simp add: nutrient_columns_def add_scaled_def item_row_def cell_number_get_prop)

lemma column_zero: "list_all (\<lambda>(g, i, r, d). g totalNutrition = Fin 0) nutrient_columns"
  by (simp add: nutrient_columns_def totalNutrition_def)

lemma aggregate_rows:
  "snd (aggregate ts rid nd ings (t, rows)) = rows @ concat (map (expected_rows ts rid nd) ings)"
  by (induction ings arbitrary: t rows) (simp_all add: expected_rows_def split: option.split)

lemma aggregate_column:
  assumes "(g, i, r, d) \<in> set nutrient_columns"
  shows "g (fst (aggregate ts rid nd ings (t, rows)))
         = foldl js_add (g t) (map (\<lambda>row. cell_number (row ! i)) (concat (map (expected_rows ts rid nd) ings)))"
proof (induction ings arbitrary: t rows)
  case Nil
  show ?case by simp
next
  case (Cons ing ings)
  have step: "g (add_scaled t s) = js_add (g t) (cell_number (item_row ts rid ing s ! i))" for s
    using column_step [of t s ts rid ing] assms by (auto simp: list_all_iff)
  show ?case by (simp add: expected_rows_def Cons step split: option.split)
qed

lemma aggregate_column_sum:
  assumes "(g, i, r, d) \<in> set nutrient_columns"
  shows "g (fst (aggregate ts rid nd ings (totalNutrition, [])))
         = column_sum i (snd (aggregate ts rid nd ings (totalNutrition, [])))"
proof -
  have z: "g totalNutrition = Fin 0" using column_zero assms by (auto simp: list_all_iff)
  show ?thesis by (simp add: aggregate_column [OF assms] aggregate_rows column_sum_def z)
qed

lemma find_sample: "find_nutrient [sample_record] sample_line = Some sample_record"
  by (simp add: find_nutrient_def food_code_def sample_record_def sample_line_def js_def)

lemma find_unknown: "find_nutrient [sample_record] unknown_line = None"
  by (simp add: find_nutrient_def food_code_def sample_record_def unknown_line_def js_def)

lemma sample_energy:
  "calculateScaledNutrition sample_record (Fin 50) (js ''Energy (Kcal)'') = Some (Fin 100)"
proof -
  have mem: "js ''Energy (Kcal)'' \<in> set numericFields"
    by (simp add: numericFields_def js_def)
  have e: "or_zero (parseFloat (field_text sample_record (js ''Energy (Kcal)''))) = Fin 200"
    by (simp add: sample_record_def parse_eval rnd_eval)
  have f: "js_div (Fin 50) (Fin 100) = Fin (1 / 2)" by (simp add: arith_eval)
  have m: "js_mul (Fin 200) (Fin (1 / 2)) = Fin 100" by (simp add: arith_eval)
  show ?thesis by (simp add: scaled_apply mem e f m)
qed

lemma energy_column: "(energy, 6, 9, 2) \<in> set nutrient_columns"
  by (simp add: nutrient_columns_def)

lemma item_row_energy: "cell_number (item_row ts rid ing s ! 6) = num_prop s (js ''Energy (Kcal)'')"
  by (simp add: item_row_def cell_number_get_prop)

lemma sample_total_energy:
  "energy (fst (aggregate ts rid [sample_record] [sample_line, sample_line] (totalNutrition, []))) = Fin 200"
proof -
  have q: "to_number (quantityInGrams sample_line) = Fin 50" by (simp add: sample_line_def)
  have z: "energy totalNutrition = Fin 0" by (simp add: totalNutrition_def)
  have a1: "js_add (Fin 0) (Fin 100) = Fin 100" by (simp add: arith_eval)
  have a2: "js_add (Fin 100) (Fin 100) = Fin 200" by (simp add: arith_eval)
  have "energy (fst (aggregate ts rid [sample_record] [sample_line, sample_line] (totalNutrition, [])))
        = foldl js_add (energy totalNutrition) (map (\<lambda>row. cell_number (row ! 6))
            (concat (map (expected_rows ts rid [sample_record]) [sample_line, sample_line])))"
    by (rule aggregate_column [OF energy_column])
  also have "\<dots> = Fin 200"
    by (simp add: expected_rows_def find_sample q z item_row_energy num_prop_def sample_energy a1 a2)
  finally show ?thesis .
qed

section \<open>Facts about the formatter\<close>

lemma dec_digits: "list_all is_digit (dec n)"
proof (induction n rule: dec.induct)
  case (1 n)
  show ?case
  proof (cases "n < 10")
    case True
    then show ?thesis by (subst dec.simps) (simp add: is_digit_def)
  next
    case False
    have "n mod 10 < 10" by simp
    then have "is_digit (48 + n mod 10)" unfolding is_digit_def by linarith
    then show ?thesis using False 1 by (subst dec.simps) simp
  qed
qed

lemma dec_nonempty: "dec n \<noteq> []"
  by (subst dec.simps) simp

lemma digits_val_snoc: "digits_val (xs @ [c]) = 10 * digits_val xs + (c - 48)"
  by (simp add: digits_val_def)

lemma digits_val_dec: "digits_val (dec n) = n"
proof (induction n rule: dec.induct)
  case (1 n)
  show ?case
  proof (cases "n < 10")
    case True
    then show ?thesis by (subst dec.simps) (simp add: digits_val_def)
  next
    case False
    then show ?thesis using 1 by (subst dec.simps) (simp add: digits_val_snoc)
  qed
qed

lemma digits_val_zeros: "digits_val (replicate k 48 @ ds) = digits_val ds"
proof (induction k)
  case 0
  show ?case by simp
next
  case (Suc k)
  have "digits_val (48 # xs) = digits_val xs" for xs
  proof (induction xs rule: rev_induct)
    case Nil
    show ?case by (simp add: digits_val_def)
  next
    case (snoc x xs)
    have "digits_val (48 # xs @ [x]) = digits_val ((48 # xs) @ [x])" by simp
    also have "\<dots> = 10 * digits_val (48 # xs) + (x - 48)" by (rule digits_val_snoc)
    finally show ?case by (simp add: snoc digits_val_snoc)
  qed
  then show ?case using Suc by simp
qed

lemma fixed_digits_split:
  assumes "0 < f"
  shows "\<exists>a b. fixed_digits n f = a @ [46] @ b \<and> length b = f \<and> a \<noteq> []
           \<and> list_all is_digit a \<and> list_all is_digit b \<and> digits_val (a @ b) = n"
proof (cases "length (dec n) \<le> f")
  case True
  define m where "m = replicate (f + 1 - length (dec n)) 48 @ dec n"
  have len: "length m = f + 1" using True by (simp add: m_def)
  have dig: "list_all is_digit m" using dec_digits [of n] by (auto simp: m_def is_digit_def list_all_iff)
  have val: "digits_val m = n" by (simp add: m_def digits_val_zeros digits_val_dec)
  have fd: "fixed_digits n f = take 1 m @ [46] @ drop 1 m"
    using assms True by (simp add: fixed_digits_def m_def)
  have "length (drop 1 m) = f" using len by simp
  moreover have "take 1 m \<noteq> []" using len by (cases m) auto
  moreover have "list_all is_digit (take 1 m)" "list_all is_digit (drop 1 m)"
    using dig by (auto simp: list_all_iff dest: in_set_takeD in_set_dropD)
  moreover have "digits_val (take 1 m @ drop 1 m) = n" using val by simp
  ultimately show ?thesis using fd by blast
next
  case False
  define m where "m = dec n"
  define k where "k = length m - f"
  have k: "0 < k" "k < length m" using False assms by (simp_all add: k_def m_def)
  have fd: "fixed_digits n f = take k m @ [46] @ drop k m"
    using assms False by (simp add: fixed_digits_def m_def k_def)
  have dig: "list_all is_digit m" using dec_digits [of n] by (simp add: m_def)
  have "length (drop k m) = f" using False by (simp add: k_def m_def)
  moreover have "take k m \<noteq> []" using k by (cases m) auto
  moreover have "list_all is_digit (take k m)" "list_all is_digit (drop k m)"
    using dig by (auto simp: list_all_iff dest: in_set_takeD in_set_dropD)
  moreover have "digits_val (take k m @ drop k m) = n" by (simp add: m_def digits_val_dec)
  ultimately show ?thesis using fd by blast
qed

lemma decimals_point:
  assumes "list_all is_digit a"
  shows "decimals (a @ [46] @ b) = length b"
proof -
  have "\<forall>c \<in> set a. c \<noteq> 46" using assms by (auto simp: list_all_iff is_digit_def)
  then have "dropWhile (\<lambda>c. c \<noteq> 46) (a @ [46] @ b) = 46 # b"
    by (simp add: dropWhile_append3)
  then show ?thesis by (simp add: decimals_def)
qed

lemma decimals_minus: "decimals (45 # s) = decimals s"
  by (simp add: decimals_def)

lemma digits_of_point:
  assumes "list_all is_digit a" and "list_all is_digit b"
  shows "filter is_digit (a @ [46] @ b) = a @ b"
proof -
  have "filter is_digit a = a" "filter is_digit b = b"
    using assms by (simp_all add: list_all_iff)
  then show ?thesis by (simp add: is_digit_def)
qed

lemma signed_digit:
  assumes "a \<noteq> []" and "list_all is_digit a"
  shows "signed (a @ s) = (False, a @ s)"
proof -
  obtain c r where a: "a = c # r" using assms(1) by (cases a) auto
  then have "is_digit c" using assms(2) by simp
  then have "c \<noteq> 45" "c \<noteq> 43" by (auto simp: is_digit_def)
  then show ?thesis by (simp add: signed_def a)
qed

lemma fixed_digits_reads:
  assumes "0 < f"
  shows "decimals (fixed_digits n f) = f"
    and "decimal_value (fixed_digits n f) = real n / 10 ^ f"
    and "decimal_value (45 # fixed_digits n f) = - real n / 10 ^ f"
proof -
  obtain a b where s: "fixed_digits n f = a @ [46] @ b" and len: "length b = f" and ne: "a \<noteq> []"
    and da: "list_all is_digit a" and db: "list_all is_digit b" and val: "digits_val (a @ b) = n"
    using fixed_digits_split [OF assms] by blast
  show d: "decimals (fixed_digits n f) = f" by (simp only: s decimals_point [OF da] len)
  have sg: "signed (fixed_digits n f) = (False, fixed_digits n f)"
    unfolding s by (rule signed_digit [OF ne da])
  have fl: "digits_val (filter is_digit (fixed_digits n f)) = n"
    unfolding s digits_of_point [OF da db] by (rule val)
  show "decimal_value (fixed_digits n f) = real n / 10 ^ f"
    unfolding decimal_value_def sg d by (simp add: fl)
  have sm: "signed (45 # fixed_digits n f) = (True, fixed_digits n f)" by (simp add: signed_def)
  show "decimal_value (45 # fixed_digits n f) = - real n / 10 ^ f"
    unfolding decimal_value_def sm decimals_minus d by (simp add: fl)
qed

lemma toFixed_reads:
  assumes "0 < f" and "\<bar>r\<bar> < 10 ^ 21"
  shows "decimals (toFixed (Fin r) f) = f"
    and "\<bar>decimal_value (toFixed (Fin r) f) - r\<bar> \<le> 1 / (2 * 10 ^ f)"
proof -
  define n where "n = nat \<lfloor>\<bar>r\<bar> * 10 ^ f + 1 / 2\<rfloor>"
  have nn: "0 \<le> \<lfloor>\<bar>r\<bar> * 10 ^ f + 1 / 2\<rfloor>" by simp
  have rn: "real n = of_int \<lfloor>\<bar>r\<bar> * 10 ^ f + 1 / 2\<rfloor>" using nn by (simp add: n_def)
  have near: "\<bar>real n - \<bar>r\<bar> * 10 ^ f\<bar> \<le> 1 / 2" unfolding rn by linarith
  have p: "(0::real) < 10 ^ f" by simp
  have "\<bar>real n / 10 ^ f - \<bar>r\<bar>\<bar> = \<bar>real n - \<bar>r\<bar> * 10 ^ f\<bar> / 10 ^ f"
    using p by (simp add: field_simps)
  also have "\<dots> \<le> (1 / 2) / 10 ^ f" by (rule divide_right_mono [OF near]) simp
  finally have close: "\<bar>real n / 10 ^ f - \<bar>r\<bar>\<bar> \<le> 1 / (2 * 10 ^ f)" by simp
  have b: "\<not> 10 ^ 21 \<le> r" "\<not> 10 ^ 21 \<le> - r" using assms(2) by (simp_all add: abs_less_iff)
  show "decimals (toFixed (Fin r) f) = f"
    using assms(1) b by (simp add: toFixed_def unsigned_fixed_def decimals_minus fixed_digits_reads(1))
  show "\<bar>decimal_value (toFixed (Fin r) f) - r\<bar> \<le> 1 / (2 * 10 ^ f)"
  proof (cases "r < 0")
    case True
    then have "toFixed (Fin r) f = 45 # fixed_digits n f"
      using b by (simp add: toFixed_def unsigned_fixed_def n_def)
    then have "decimal_value (toFixed (Fin r) f) = - real n / 10 ^ f"
      by (simp add: fixed_digits_reads(3) [OF assms(1)])
    then show ?thesis using close True by simp
  next
    case False
    then have "toFixed (Fin r) f = fixed_digits n f"
      using b by (simp add: toFixed_def unsigned_fixed_def n_def)
    then have "decimal_value (toFixed (Fin r) f) = real n / 10 ^ f"
      by (simp add: fixed_digits_reads(2) [OF assms(1)])
    then show ?thesis using close False by simp
  qed
qed

lemma toFixed_rounded:
  assumes "0 < f" and "is_finite x" and "\<bar>mag x\<bar> < 10 ^ 21"
  shows "rounded_to f x (toFixed x f)"
proof (cases x)
  case NegZero
  have "toFixed NegZero f = fixed_digits 0 f" by (simp add: toFixed_def)
  then show ?thesis using fixed_digits_reads(1,2) [OF assms(1), of 0] NegZero
    by (simp add: rounded_to_def)
next
  case (Fin r)
  then show ?thesis using toFixed_reads [OF assms(1), of r] assms(3) by (simp add: rounded_to_def)
qed (use assms in simp_all)

lemma recipeRow_columns:
  "map (\<lambda>(g, i, r, d). recipeRow ts rid info y t ! r) nutrient_columns
   = map (\<lambda>(g, i, r, d). Str (toFixed (g t) d)) nutrient_columns"
  by (simp add: nutrient_columns_def recipeRow_def)

lemma recipeRow_column:
  assumes "(g, i, r, d) \<in> set nutrient_columns"
  shows "recipeRow ts rid info y t ! r = Str (toFixed (g t) d)"
proof -
  have "list_all (\<lambda>(g, i, r, d). recipeRow ts rid info y t ! r = Str (toFixed (g t) d)) nutrient_columns"
    by (simp add: nutrient_columns_def recipeRow_def)
  then show ?thesis using assms by (auto simp: list_all_iff)
qed

lemma column_decimals: "(g, i, r, d) \<in> set nutrient_columns \<Longrightarrow> 0 < d"
  by (auto simp: nutrient_columns_def)


lemma create_recipe_parts:
  "total' (response (create_recipe ts rid nd info y ings)) = fst (aggregate ts rid nd ings (totalNutrition, []))"
  "perServing (response (create_recipe ts rid nd info y ings))
     = perServing (response_nutrition y (fst (aggregate ts rid nd ings (totalNutrition, []))))"
  "recipe_rows (create_recipe ts rid nd info y ings)
     = [recipeRow ts rid info y (fst (aggregate ts rid nd ings (totalNutrition, [])))]"
  "item_rows (create_recipe ts rid nd info y ings) = snd (aggregate ts rid nd ings (totalNutrition, []))"
  by (simp_all add: create_recipe_def response_nutrition_def split: prod.split)

lemma quarter_total_energy:
  "energy (fst (aggregate ts rid [quarter_record] [sample_line] (totalNutrition, []))) = Fin (1 / 8)"
proof -
  have q: "to_number (quantityInGrams sample_line) = Fin 50" by (simp add: sample_line_def)
  have z: "energy totalNutrition = Fin 0" by (simp add: totalNutrition_def)
  have fnd: "find_nutrient [quarter_record] sample_line = Some quarter_record"
    by (simp add: find_nutrient_def food_code_def quarter_record_def sample_line_def js_def)
  have mem: "js ''Energy (Kcal)'' \<in> set numericFields"
    by (simp add: numericFields_def js_def)
  have e: "or_zero (parseFloat (field_text quarter_record (js ''Energy (Kcal)''))) = Fin (1 / 4)"
    by (simp add: quarter_record_def parse_eval rnd_eval)
  have f: "js_div (Fin 50) (Fin 100) = Fin (1 / 2)" by (simp add: arith_eval)
  have m: "js_mul (Fin (1 / 4)) (Fin (1 / 2)) = Fin (1 / 8)" by (simp add: arith_eval)
  have a: "js_add (Fin 0) (Fin (1 / 8)) = Fin (1 / 8)" by (simp add: arith_eval)
  have "energy (fst (aggregate ts rid [quarter_record] [sample_line] (totalNutrition, [])))
        = foldl js_add (energy totalNutrition) (map (\<lambda>row. cell_number (row ! 6))
            (concat (map (expected_rows ts rid [quarter_record]) [sample_line])))"
    by (rule aggregate_column [OF energy_column])
  also have "\<dots> = Fin (1 / 8)"
    by (simp add: expected_rows_def fnd q z item_row_energy num_prop_def scaled_apply mem e f m a)
  finally show ?thesis .
qed

lemma toFixed_eighth: "toFixed (Fin (1 / 8)) 2 = js ''0.13''" "toFixed (Fin (1 / 8)) 3 = js ''0.125''"
  by (simp_all add: fixed_eval)

lemma thiamine_column: "(thiamine, 16, 20, 3) \<in> set nutrient_columns"
  by (simp add: nutrient_columns_def)

lemma toFixed_samples:
  "toFixed (Fin 100) 2 = js ''100.00''" "toFixed (Fin 2) 2 = js ''2.00''"
  "toFixed (Fin (- 100)) 2 = js ''-100.00''" "toFixed PInf 2 = js ''Infinity''"
  "toFixed NaN 2 = js ''NaN''"
  by (simp_all add: fixed_eval)

lemma division_samples:
  "js_div (Fin 200) (Fin 2) = Fin 100" "js_div (Fin 200) (Fin 0) = PInf"
  "js_div (Fin 0) (Fin 0) = NaN" "js_div (Fin 200) (Fin (- 2)) = Fin (- 100)"
  "js_div (Fin 10) (Fin 5) = Fin 2"
  by (simp_all add: arith_eval)

lemma empty_total_energy: "energy (fst (aggregate ts rid nd [] (totalNutrition, []))) = Fin 0"
  by (simp add: totalNutrition_def)

section \<open>Facts about accumulation\<close>

lemma settled_zero: "settled (Fin 0)"
  by (simp add: settled_def to_grid_zero)

lemma js_le_zero_cases:
  assumes "js_le (Fin 0) c"
  obtains "c = PInf" | "c = NegZero" | s where "c = Fin s" and "0 \<le> s"
  using assms by (cases c) (auto simp: js_le_def)

lemma rnd_nonneg_sum:
  assumes r: "0 \<le> r" and fixed: "to_grid (quantum r) r = r" and s: "0 \<le> s"
  shows "settled (rnd (r + s)) \<and> js_le (Fin r) (rnd (r + s))"
proof (cases "r + s = 0")
  case True
  then have "r = 0" using r s by linarith
  moreover have "rnd 0 = Fin 0" by (simp add: rnd_def pack_def zero_of_def to_grid_zero)
  ultimately show ?thesis using True by (simp add: settled_zero js_le_def)
next
  case False
  define x where "x = r + s"
  define g where "g = to_grid (quantum x) x"
  have x: "0 < x" using False r s by (simp add: x_def)
  have rx: "r \<le> x" using s by (simp add: x_def)
  have g0: "0 \<le> g" unfolding g_def by (rule to_grid_nonneg [OF less_imp_le [OF x] quantum_pos])
  have rg: "r \<le> g"
  proof (cases "r = 0")
    case True
    then show ?thesis using g0 by simp
  next
    case False
    then have "0 < r" using r by simp
    then show ?thesis unfolding g_def by (rule to_grid_quantum_mono [OF _ rx fixed])
  qed
  have rn: "rnd x = pack False g" using x by (simp add: rnd_def g_def)
  show ?thesis
  proof (cases "2 ^ 1024 \<le> g")
    case True
    then have "rnd (r + s) = PInf" unfolding x_def [symmetric] by (simp add: rn pack_def inf_of_def)
    then show ?thesis by (simp add: settled_def js_le_def)
  next
    case big: False
    show ?thesis
    proof (cases "g = 0")
      case True
      then have "rnd (r + s) = Fin 0"
        unfolding x_def [symmetric] using big by (simp add: rn pack_def zero_of_def)
      moreover have "r = 0" using rg r True by linarith
      ultimately show ?thesis by (simp only: settled_zero js_le_def) simp
    next
      case False
      then have gp: "0 < g" using g0 by simp
      have "rnd (r + s) = Fin g"
        unfolding x_def [symmetric] using big False by (simp add: rn pack_def)
      moreover have "to_grid (quantum g) g = g" by (rule to_grid_quantum_idem [OF x g_def gp])
      ultimately show ?thesis using g0 rg by (simp add: settled_def js_le_def)
    qed
  qed
qed

lemma add_step:
  assumes "settled t" and "js_le (Fin 0) c"
  shows "settled (js_add t c) \<and> js_le t (js_add t c)"
proof (cases "t = PInf")
  case True
  from assms(2) show ?thesis
    by (rule js_le_zero_cases) (simp_all add: True js_add_def settled_def js_le_def)
next
  case False
  then obtain r where t: "t = Fin r" and r: "0 \<le> r" and fixed: "to_grid (quantum r) r = r"
    using assms(1) by (auto simp: settled_def)
  from assms(2) show ?thesis
  proof (rule js_le_zero_cases)
    assume "c = PInf"
    then show ?thesis by (simp add: t js_add_def settled_def js_le_def)
  next
    assume "c = NegZero"
    then show ?thesis using assms(1) r by (simp add: t js_add_def js_le_def)
  next
    fix s assume "c = Fin s" and s: "0 \<le> s"
    then have "js_add t c = rnd (r + s)" by (simp add: t js_add_def)
    then show ?thesis using rnd_nonneg_sum [OF r fixed s] by (simp add: t)
  qed
qed

lemma settled_le_refl: "settled v \<Longrightarrow> js_le v v"
  by (cases v) (auto simp: settled_def js_le_def)

lemma foldl_settled:
  assumes "settled a" and "list_all (js_le (Fin 0)) cs"
  shows "settled (foldl js_add a cs)"
  using assms by (induction cs arbitrary: a) (simp_all add: add_step)

lemma foldl_step_le:
  assumes "settled a" and "list_all (js_le (Fin 0)) cs" and "list_all (js_le (Fin 0)) ds"
    and "length ds \<le> 1"
  shows "js_le (foldl js_add a cs) (foldl js_add a (cs @ ds))"
proof (cases ds)
  case Nil
  have "settled (foldl js_add a cs)" by (rule foldl_settled [OF assms(1,2)])
  then show ?thesis using Nil by (simp add: settled_le_refl)
next
  case (Cons d rest)
  then have "rest = []" using assms(4) by simp
  then show ?thesis using Cons assms(3) add_step [OF foldl_settled [OF assms(1,2)], of d] by simp
qed

lemma column_key:
  "list_all (\<lambda>f. P (num_prop s f)) numericFields \<Longrightarrow>
   list_all (\<lambda>(g, i, r, d). P (cell_number (item_row ts rid ing s ! i))) nutrient_columns"
  by (simp add: nutrient_columns_def item_row_def numericFields_def cell_number_get_prop)

lemma column_cells_nonneg:
  assumes col: "(g, i, r, d) \<in> set nutrient_columns" and ok: "list_all (contributions_nonneg nd) ings"
  shows "list_all (js_le (Fin 0))
           (map (\<lambda>row. cell_number (row ! i)) (concat (map (expected_rows ts rid nd) ings)))"
  using ok
proof (induction ings)
  case Nil
  show ?case by simp
next
  case (Cons ing ings)
  have "list_all (js_le (Fin 0)) (map (\<lambda>row. cell_number (row ! i)) (expected_rows ts rid nd ing))"
  proof (cases "find_nutrient nd ing")
    case None
    then show ?thesis by (simp add: expected_rows_def)
  next
    case (Some n)
    define s where "s = calculateScaledNutrition n (to_number (quantityInGrams ing))"
    have "list_all (\<lambda>f. js_le (Fin 0) (num_prop s f)) numericFields"
      using Cons.prems Some by (simp add: contributions_nonneg_def s_def)
    then have "list_all (\<lambda>(g, i, r, d). js_le (Fin 0) (cell_number (item_row ts rid ing s ! i)))
        nutrient_columns"
      by (rule column_key)
    then have "js_le (Fin 0) (cell_number (item_row ts rid ing s ! i))"
      using col by (auto simp: list_all_iff)
    then show ?thesis using Some by (simp add: expected_rows_def s_def)
  qed
  then show ?case using Cons by simp
qed

lemma expected_rows_short: "length (expected_rows ts rid nd ing) \<le> 1"
  by (simp add: expected_rows_def split: option.split)

lemma column_monotone:
  assumes col: "(g, i, r, d) \<in> set nutrient_columns"
    and ok: "list_all (contributions_nonneg nd) (ings @ [ing])"
  shows "js_le (g (fst (aggregate ts rid nd ings (totalNutrition, []))))
               (g (fst (aggregate ts rid nd (ings @ [ing]) (totalNutrition, []))))"
proof -
  let ?cells = "\<lambda>xs. map (\<lambda>row. cell_number (row ! i)) (concat (map (expected_rows ts rid nd) xs))"
  have z: "g totalNutrition = Fin 0" using column_zero col by (auto simp: list_all_iff)
  have ok1: "list_all (contributions_nonneg nd) ings" and ok2: "list_all (contributions_nonneg nd) [ing]"
    using ok by simp_all
  have "js_le (foldl js_add (Fin 0) (?cells ings)) (foldl js_add (Fin 0) (?cells ings @ ?cells [ing]))"
    by (rule foldl_step_le [OF settled_zero column_cells_nonneg [OF col ok1]
          column_cells_nonneg [OF col ok2]]) (simp add: expected_rows_short [simplified])
  then show ?thesis by (simp add: aggregate_column [OF col] z)
qed

lemma scaled_all:
  "list_all (\<lambda>f. Q (num_prop (calculateScaledNutrition n q) f)) numericFields
   = list_all (\<lambda>f. Q (js_mul (or_zero (parseFloat (field_text n f))) (js_div q (Fin 100))))
       numericFields"
  by (simp add: list_all_iff num_prop_def scaled_apply)

lemma half_factor: "js_div (Fin 50) (Fin 100) = Fin (1 / 2)"
  by (simp add: arith_eval)

lemma sample_contributions: "contributions_nonneg [sample_record] sample_line"
proof -
  have q: "to_number (quantityInGrams sample_line) = Fin 50" by (simp add: sample_line_def)
  have m: "js_mul (Fin 0) (Fin (1 / 2)) = Fin 0" "js_mul (Fin 200) (Fin (1 / 2)) = Fin 100"
    by (simp_all add: arith_eval)
  have l: "js_le (Fin 0) (Fin 0)" "js_le (Fin 0) (Fin 100)"
    by (simp_all add: js_le_def)
  have "list_all (\<lambda>f. js_le (Fin 0) (js_mul (or_zero (parseFloat (field_text sample_record f))) (Fin (1 / 2))))
          numericFields"
    by (simp add: numericFields_def sample_record_def parse_eval rnd_eval m l)
  then show ?thesis
    by (simp add: contributions_nonneg_def find_sample q scaled_all half_factor)
qed

lemma sample_single_energy:
  "energy (fst (aggregate ts rid [sample_record] [sample_line] (totalNutrition, []))) = Fin 100"
proof -
  have q: "to_number (quantityInGrams sample_line) = Fin 50" by (simp add: sample_line_def)
  have z: "energy totalNutrition = Fin 0" by (simp add: totalNutrition_def)
  have a1: "js_add (Fin 0) (Fin 100) = Fin 100" by (simp add: arith_eval)
  have "energy (fst (aggregate ts rid [sample_record] [sample_line] (totalNutrition, [])))
        = foldl js_add (energy totalNutrition) (map (\<lambda>row. cell_number (row ! 6))
            (concat (map (expected_rows ts rid [sample_record]) [sample_line])))"
    by (rule aggregate_column [OF energy_column])
  also have "\<dots> = Fin 100"
    by (simp add: expected_rows_def find_sample q z item_row_energy num_prop_def sample_energy a1)
  finally show ?thesis .
qed

section \<open>Facts about the order of the lines\<close>

lemma rnd_zero: "rnd 0 = Fin 0"
  by (simp add: rnd_def pack_def zero_of_def to_grid_zero)

lemma rnd_idem:
  assumes "rnd x = Fin r"
  shows "rnd r = Fin r"
proof -
  define g where "g = to_grid (quantum \<bar>x\<bar>) \<bar>x\<bar>"
  have p: "pack (x < 0) g = Fin r" using assms by (simp add: rnd_def g_def)
  have g0: "0 \<le> g" unfolding g_def by (rule to_grid_nonneg [OF _ quantum_pos]) simp
  have small: "\<not> 2 ^ 1024 \<le> g" using p by (auto simp: pack_def inf_of_def split: if_splits)
  show ?thesis
  proof (cases "g = 0")
    case True
    then have "r = 0" using p small by (auto simp: pack_def zero_of_def split: if_splits)
    then show ?thesis by (simp add: rnd_zero)
  next
    case False
    then have gp: "0 < g" using g0 by simp
    have r: "r = (if x < 0 then - g else g)" using p small False by (simp add: pack_def)
    have "x \<noteq> 0" using False by (auto simp: g_def to_grid_zero)
    then have x: "0 < \<bar>x\<bar>" by simp
    have idem: "to_grid (quantum g) g = g" by (rule to_grid_quantum_idem [OF x g_def gp])
    have ar: "\<bar>r\<bar> = g" using gp by (simp add: r)
    have neg: "(r < 0) = (x < 0)" using gp by (simp add: r)
    show ?thesis unfolding rnd_def ar idem neg using small False by (simp add: pack_def r)
  qed
qed

lemma is_double_rnd: "is_double (rnd x)"
proof (cases "rnd x")
  case (Fin r)
  then show ?thesis using rnd_idem [OF Fin] by (simp add: is_double_def)
qed (simp_all add: is_double_def rnd_zero)

lemma is_double_simps:
  "is_double NaN" "is_double PInf" "is_double NInf" "is_double NegZero" "is_double (Fin 0)"
  "is_double (inf_of b)" "is_double (zero_of b)"
  by (simp_all add: is_double_def rnd_zero inf_of_def zero_of_def)

lemma is_double_js_mul: "is_double (js_mul x y)"
  by (simp add: js_mul_def is_double_simps is_double_rnd)

lemma is_double_scaled: "is_double (num_prop (calculateScaledNutrition n q) k)"
  by (simp add: num_prop_def scaled_apply is_double_simps is_double_js_mul)

lemma js_add_from_zero_swap:
  assumes "is_double x" and "is_double y"
  shows "js_add (js_add (Fin 0) x) y = js_add (js_add (Fin 0) y) x"
proof -
  have fx: "rnd r = Fin r" if "x = Fin r" for r using assms(1) that by (simp add: is_double_def)
  have fy: "rnd r = Fin r" if "y = Fin r" for r using assms(2) that by (simp add: is_double_def)
  show ?thesis
    by (cases x; cases y) (simp_all add: js_add_def fx fy rnd_zero add.commute)
qed

lemma add_scaled_swap:
  "add_scaled (add_scaled totalNutrition (calculateScaledNutrition n q)) (calculateScaledNutrition n' q')
   = add_scaled (add_scaled totalNutrition (calculateScaledNutrition n' q')) (calculateScaledNutrition n q)"
  by (simp add: add_scaled_def totalNutrition_def
      js_add_from_zero_swap [OF is_double_scaled is_double_scaled, of n q _ n' q'])

lemma two_lines_swap:
  "fst (aggregate ts rid nd [a, b] (totalNutrition, [])) = fst (aggregate ts rid nd [b, a] (totalNutrition, []))"
  by (simp add: add_scaled_swap split: option.split)

lemma rows_mset:
  assumes "mset ings = mset ings'"
  shows "mset (concat (map f ings)) = mset (concat (map f ings'))"
proof -
  have "mset (concat (map f xs)) = (\<Sum>x \<in># mset xs. mset (f x))" for xs
    by (induction xs) simp_all
  then show ?thesis using assms by simp
qed

lemma find_tenths:
  "find_nutrient tenths_data (whole_line ''A001'') = Some (tenth_record ''A001'' ''0.1'')"
  "find_nutrient tenths_data (whole_line ''A002'') = Some (tenth_record ''A002'' ''0.2'')"
  "find_nutrient tenths_data (whole_line ''A003'') = Some (tenth_record ''A003'' ''0.3'')"
  by (simp_all add: find_nutrient_def food_code_def tenths_data_def tenth_record_def whole_line_def js_def)

lemma tenths_parsed:
  "or_zero (parseFloat (field_text (tenth_record ''A001'' ''0.1'') (js ''Energy (Kcal)'')))
     = Fin (3602879701896397 / 36028797018963968)"
  "or_zero (parseFloat (field_text (tenth_record ''A002'' ''0.2'') (js ''Energy (Kcal)'')))
     = Fin (3602879701896397 / 18014398509481984)"
  "or_zero (parseFloat (field_text (tenth_record ''A003'' ''0.3'') (js ''Energy (Kcal)'')))
     = Fin (5404319552844595 / 18014398509481984)"
  by (simp_all add: tenth_record_def parse_eval rnd_eval)

lemma whole_factor: "js_div (Fin 100) (Fin 100) = Fin 1"
  by (simp add: arith_eval)

lemma tenths_scaled:
  "js_mul (Fin (3602879701896397 / 36028797018963968)) (Fin 1) = Fin (3602879701896397 / 36028797018963968)"
  "js_mul (Fin (3602879701896397 / 18014398509481984)) (Fin 1) = Fin (3602879701896397 / 18014398509481984)"
  "js_mul (Fin (5404319552844595 / 18014398509481984)) (Fin 1) = Fin (5404319552844595 / 18014398509481984)"
  by (simp_all add: arith_eval)

lemma tenths_forward:
  "js_add (Fin 0) (Fin (3602879701896397 / 36028797018963968)) = Fin (3602879701896397 / 36028797018963968)"
  "js_add (Fin (3602879701896397 / 36028797018963968)) (Fin (3602879701896397 / 18014398509481984))
     = Fin (1351079888211149 / 4503599627370496)"
  "js_add (Fin (1351079888211149 / 4503599627370496)) (Fin (5404319552844595 / 18014398509481984))
     = Fin (1351079888211149 / 2251799813685248)"
  by (simp_all add: arith_eval)

lemma tenths_backward:
  "js_add (Fin 0) (Fin (5404319552844595 / 18014398509481984)) = Fin (5404319552844595 / 18014398509481984)"
  "js_add (Fin (5404319552844595 / 18014398509481984)) (Fin (3602879701896397 / 18014398509481984))
     = Fin (1 / 2)"
  "js_add (Fin (1 / 2)) (Fin (3602879701896397 / 36028797018963968))
     = Fin (5404319552844595 / 9007199254740992)"
  by (simp_all add: arith_eval)

lemma energy_member: "js ''Energy (Kcal)'' \<in> set numericFields"
  by (simp add: numericFields_def js_def)

lemma tenths_energy:
  "energy (fst (aggregate ts rid tenths_data
      [whole_line ''A001'', whole_line ''A002'', whole_line ''A003''] (totalNutrition, [])))
     = Fin (1351079888211149 / 2251799813685248)"
  "energy (fst (aggregate ts rid tenths_data
      [whole_line ''A003'', whole_line ''A002'', whole_line ''A001''] (totalNutrition, [])))
     = Fin (5404319552844595 / 9007199254740992)"
proof -
  have q: "to_number (quantityInGrams (whole_line c)) = Fin 100" for c by (simp add: whole_line_def)
  have z: "energy totalNutrition = Fin 0" by (simp add: totalNutrition_def)
  have "energy (fst (aggregate ts rid tenths_data
      [whole_line ''A001'', whole_line ''A002'', whole_line ''A003''] (totalNutrition, [])))
        = foldl js_add (energy totalNutrition) (map (\<lambda>row. cell_number (row ! 6))
            (concat (map (expected_rows ts rid tenths_data)
               [whole_line ''A001'', whole_line ''A002'', whole_line ''A003''])))"
    by (rule aggregate_column [OF energy_column])
  also have "\<dots> = Fin (1351079888211149 / 2251799813685248)"
    by (simp add: expected_rows_def find_tenths q z item_row_energy num_prop_def scaled_apply
        energy_member tenths_parsed whole_factor tenths_scaled tenths_forward)
  finally show "energy (fst (aggregate ts rid tenths_data
      [whole_line ''A001'', whole_line ''A002'', whole_line ''A003''] (totalNutrition, [])))
     = Fin (1351079888211149 / 2251799813685248)" .
  have "energy (fst (aggregate ts rid tenths_data
      [whole_line ''A003'', whole_line ''A002'', whole_line ''A001''] (totalNutrition, [])))
        = foldl js_add (energy totalNutrition) (map (\<lambda>row. cell_number (row ! 6))
            (concat (map (expected_rows ts rid tenths_data)
               [whole_line ''A003'', whole_line ''A002'', whole_line ''A001''])))"
    by (rule aggregate_column [OF energy_column])
  also have "\<dots> = Fin (5404319552844595 / 9007199254740992)"
    by (simp add: expected_rows_def find_tenths q z item_row_energy num_prop_def scaled_apply
        energy_member tenths_parsed whole_factor tenths_scaled tenths_backward)
  finally show "energy (fst (aggregate ts rid tenths_data
      [whole_line ''A003'', whole_line ''A002'', whole_line ''A001''] (totalNutrition, [])))
     = Fin (5404319552844595 / 9007199254740992)" .
qed

section \<open>Totals that are large or not finite\<close>

lemma rnd_large:
  "rnd (10 ^ 21) = Fin (10 ^ 21)" "rnd (2 * 10 ^ 21) \<noteq> Fin (10 ^ 21)"
  "rnd (10 ^ 22) \<noteq> Fin (10 ^ 21)"
  by (simp_all add: rnd_eval)

lemma toFixed_large: "toFixed (Fin (10 ^ 21)) 2 = js ''1e+21''"
proof -
  have r: "rnd 1000000000000000000000 = Fin 1000000000000000000000"
    "rnd 2000000000000000000000 \<noteq> Fin 1000000000000000000000"
    "rnd 10000000000000000000000 \<noteq> Fin 1000000000000000000000"
    using rnd_large by simp_all
  have c: "candidates (10 ^ 21) 22 1 = [(1, 22)]" "candidates (10 ^ 21) 23 1 = []"
    by (simp_all add: candidates_def r)
  have c': "candidates 1000000000000000000000 22 (Suc 0) = [(Suc 0, 22)]"
    "candidates 1000000000000000000000 23 (Suc 0) = []"
    using c by simp_all
  have "shortest (10 ^ 21) 22 1 (Suc 16) = (1, 22)"
    by (subst shortest.simps(2)) (simp add: c')
  then have s: "shortest (10 ^ 21) 22 1 17 = (1, 22)"
    by simp
  have l: "length (dec (nat \<lfloor>10 ^ 21 :: real\<rfloor>)) = 22"
    by (simp add: dec.simps)
  have d: "dec (Suc 0) = [49]" "dec 21 = [50, 49]"
    by (simp_all add: dec.simps)
  have "exponential (10 ^ 21) = js ''1e+21''"
    unfolding exponential_def l s by (simp add: d js_def)
  then show ?thesis
    by (simp add: toFixed_def unsigned_fixed_def)
qed

lemma large_quotient: "js_div (Fin (10 ^ 21)) (Fin 1) = Fin (10 ^ 21)"
  using rnd_large(1) by (simp add: js_div_def)

lemma decimals_large: "decimals (js ''1e+21'') = 0"
  by (simp add: decimals_def js_def)

lemma large_fields:
  "energy large_totals = Fin (10 ^ 21)" "omega3 large_totals = Fin (10 ^ 21)"
  "omega6 large_totals = Fin 1"
  by (simp_all add: large_totals_def)

lemma find_bare: "find_nutrient [sample_record] bare_line = Some sample_record"
  by (simp add: find_nutrient_def food_code_def sample_record_def bare_line_def js_def)

lemma bare_total_energy:
  "energy (fst (aggregate ts rid [sample_record] [bare_line] (totalNutrition, []))) = NaN"
proof -
  have q: "to_number (quantityInGrams bare_line) = NaN" by (simp add: bare_line_def)
  have z: "energy totalNutrition = Fin 0" by (simp add: totalNutrition_def)
  have mem: "js ''Energy (Kcal)'' \<in> set numericFields"
    by (simp add: numericFields_def js_def)
  have f: "js_div NaN (Fin 100) = NaN" by (simp add: js_div_def)
  have m: "js_mul v NaN = NaN" for v by (simp add: js_mul_def)
  have a: "js_add (Fin 0) NaN = NaN" by (simp add: js_add_def)
  have "energy (fst (aggregate ts rid [sample_record] [bare_line] (totalNutrition, [])))
        = foldl js_add (energy totalNutrition) (map (\<lambda>row. cell_number (row ! 6))
            (concat (map (expected_rows ts rid [sample_record]) [bare_line])))"
    by (rule aggregate_column [OF energy_column])
  also have "\<dots> = NaN"
    by (simp add: expected_rows_def find_bare q z item_row_energy num_prop_def scaled_apply mem f m a)
  finally show ?thesis .
qed

lemma division_NaN: "js_div NaN v = NaN"
  by (simp add: js_div_def)

lemma decimals_NaN: "decimals (js ''NaN'') = 0"
  by (simp add: decimals_def js_def)




section \<open>Vitamin D by food code range\<close>

text \<open>
  C2. For every food code string \<open>c\<close> and values \<open>chocal\<close>, \<open>oh25d3\<close>:
  \<open>calculateVitaminD\<close> returns \<open>chocal\<close> when \<open>c\<close> lies in the closed lexicographic range
  from A001 to L004, \<open>chocal + 5 * oh25d3\<close> when it lies in the closed lexicographic range
  from M001 to S010, and zero outside both ranges. The ranges are stated with the
  lexicographic order of lists; the code decides them with the String comparison.
  B002 with (10, 2) gives 10, P005 gives 20, Z999 gives 0.
\<close>

theorem calculateVitaminD_ranges:
  "calculateVitaminD c chocal oh25d3 =
     (if js ''A001'' \<le> c \<and> c \<le> js ''L004'' then chocal
      else if js ''M001'' \<le> c \<and> c \<le> js ''S010'' then js_add chocal (js_mul (Fin 5) oh25d3)
      else Fin 0)
   \<and> calculateVitaminD (js ''B002'') (Fin 10) (Fin 2) = Fin 10
   \<and> calculateVitaminD (js ''P005'') (Fin 10) (Fin 2) = Fin 20
   \<and> calculateVitaminD (js ''Z999'') (Fin 10) (Fin 2) = Fin 0"
proof -
  have ranges: "calculateVitaminD c chocal oh25d3 =
     (if js ''A001'' \<le> c \<and> c \<le> js ''L004'' then chocal
      else if js ''M001'' \<le> c \<and> c \<le> js ''S010'' then js_add chocal (js_mul (Fin 5) oh25d3)
      else Fin 0)"
    by (simp add: calculateVitaminD_def str_ge_def str_le_def str_lt_lexord not_less)
  have b: "calculateVitaminD (js ''B002'') (Fin 10) (Fin 2) = Fin 10"
    by (simp add: calculateVitaminD_def str_ge_def str_le_def js_def)
  have mul: "js_mul (Fin 5) (Fin 2) = Fin 10"
    by (simp add: arith_eval)
  have add: "js_add (Fin 10) (Fin 10) = Fin 20"
    by (simp add: arith_eval)
  have p: "calculateVitaminD (js ''P005'') (Fin 10) (Fin 2) = Fin 20"
    by (simp add: calculateVitaminD_def str_ge_def str_le_def js_def mul add)
  have z: "calculateVitaminD (js ''Z999'') (Fin 10) (Fin 2) = Fin 0"
    by (simp add: calculateVitaminD_def str_ge_def str_le_def js_def)
  from ranges b p z show ?thesis by blast
qed

section \<open>The quantity scaler\<close>

text \<open>
  C1 (amended). For every nutrient record and every quantity \<open>q\<close>, \<open>calculateScaledNutrition\<close>
  returns a mapping in which each of the 33 canonical fields is the parsed source value times
  \<open>q / 100\<close>, where a field that is absent or not numeric counts as exactly zero. No output
  field is \<open>NaN\<close> when \<open>q\<close> is a finite number and no source field parses to an infinity.
\<close>

theorem calculateScaledNutrition_scales:
  "length numericFields = 33
   \<and> map (calculateScaledNutrition n q) numericFields
       = map (\<lambda>f. Some (js_mul (or_zero (parseFloat (field_text n f))) (js_div q (Fin 100))))
           numericFields
   \<and> (\<forall>f. n f = None \<or> parseFloat (field_text n f) = NaN
          \<longrightarrow> or_zero (parseFloat (field_text n f)) = Fin 0)
   \<and> (is_finite q \<and> (\<forall>f \<in> set numericFields. \<not> is_inf (parseFloat (field_text n f)))
        \<longrightarrow> (\<forall>f \<in> set numericFields. num_prop (calculateScaledNutrition n q) f \<noteq> NaN))"
proof (intro conjI)
  show "length numericFields = 33" by (rule length_numericFields)
  show "map (calculateScaledNutrition n q) numericFields
       = map (\<lambda>f. Some (js_mul (or_zero (parseFloat (field_text n f))) (js_div q (Fin 100))))
           numericFields"
    by (rule map_cong [OF refl]) (simp add: scaled_apply)
  show "\<forall>f. n f = None \<or> parseFloat (field_text n f) = NaN
          \<longrightarrow> or_zero (parseFloat (field_text n f)) = Fin 0"
    using absent_or_non_numeric by blast
  show "is_finite q \<and> (\<forall>f \<in> set numericFields. \<not> is_inf (parseFloat (field_text n f)))
        \<longrightarrow> (\<forall>f \<in> set numericFields. num_prop (calculateScaledNutrition n q) f \<noteq> NaN)"
    using scaled_not_NaN by blast
qed

lemma sample_fields_finite:
  "list_all (\<lambda>f. \<not> is_inf (parseFloat (field_text sample_record f))) numericFields"
  by (simp add: numericFields_def sample_record_def parse_eval rnd_eval)

text \<open>The record with 200 kcal at 50 g: the energy scales to 100, an absent field to 0.\<close>

theorem calculateScaledNutrition_scales_witness:
  "is_finite (Fin 50)
   \<and> list_all (\<lambda>f. \<not> is_inf (parseFloat (field_text sample_record f))) numericFields
   \<and> calculateScaledNutrition sample_record (Fin 50) (js ''Energy (Kcal)'') = Some (Fin 100)
   \<and> calculateScaledNutrition sample_record (Fin 50) (js ''Protein (g)'') = Some (Fin 0)
   \<and> list_all (\<lambda>f. num_prop (calculateScaledNutrition sample_record (Fin 50)) f \<noteq> NaN) numericFields"
proof -
  have fin: "is_finite (Fin 50)" by simp
  note all = sample_fields_finite
  have factor: "js_div (Fin 50) (Fin 100) = Fin (1 / 2)"
    by (simp add: arith_eval)
  have e: "or_zero (parseFloat (field_text sample_record (js ''Energy (Kcal)''))) = Fin 200"
    by (simp add: sample_record_def parse_eval rnd_eval)
  have p: "or_zero (parseFloat (field_text sample_record (js ''Protein (g)''))) = Fin 0"
    by (simp add: sample_record_def parse_eval rnd_eval)
  have m1: "js_mul (Fin 200) (Fin (1 / 2)) = Fin 100" by (simp add: arith_eval)
  have m2: "js_mul (Fin 0) (Fin (1 / 2)) = Fin 0" by (simp add: arith_eval)
  have mem: "js ''Energy (Kcal)'' \<in> set numericFields" "js ''Protein (g)'' \<in> set numericFields"
    by (simp_all add: numericFields_def js_def)
  from calculateScaledNutrition_scales [of sample_record "Fin 50"]
  have maps: "map (calculateScaledNutrition sample_record (Fin 50)) numericFields
       = map (\<lambda>f. Some (js_mul (or_zero (parseFloat (field_text sample_record f))) (js_div (Fin 50) (Fin 100))))
           numericFields"
    and nonan: "\<forall>f \<in> set numericFields. num_prop (calculateScaledNutrition sample_record (Fin 50)) f \<noteq> NaN"
    using fin all by (simp_all add: list_all_iff)
  from maps mem have "calculateScaledNutrition sample_record (Fin 50) (js ''Energy (Kcal)'') = Some (Fin 100)"
    by (simp add: e factor m1)
  moreover from maps mem have "calculateScaledNutrition sample_record (Fin 50) (js ''Protein (g)'') = Some (Fin 0)"
    by (simp add: p factor m2)
  ultimately show ?thesis using fin all nonan by (simp add: list_all_iff)
qed

text \<open>
  As stated for every quantity the claim fails: an infinite quantity (the JSON number
  \<^verbatim>\<open>1e400\<close>) turns every absent field into \<open>0 * Infinity\<close>, and a quantity that is \<open>NaN\<close>
  (a line without \<^verbatim>\<open>quantityInGrams\<close>) turns every field into \<open>NaN\<close>.
\<close>

theorem calculateScaledNutrition_NaN_counterexample:
  "num_prop (calculateScaledNutrition [js ''Food code'' \<mapsto> js ''A001''] PInf) (js ''Protein (g)'') = NaN
   \<and> num_prop (calculateScaledNutrition
         [js ''Food code'' \<mapsto> js ''A001'', js ''Protein (g)'' \<mapsto> js ''12.5''] NaN) (js ''Protein (g)'') = NaN"
proof -
  have mem: "js ''Protein (g)'' \<in> set numericFields"
    by (simp add: numericFields_def js_def)
  have a: "or_zero (parseFloat (field_text [js ''Food code'' \<mapsto> js ''A001''] (js ''Protein (g)''))) = Fin 0"
    by (simp add: parse_eval)
  have f: "js_div PInf (Fin 100) = PInf" by (simp add: js_div_def inf_of_def)
  have m: "js_mul (Fin 0) PInf = NaN" by (simp add: js_mul_def)
  have g: "js_div NaN (Fin 100) = NaN" by (simp add: js_div_def)
  have k: "js_mul v NaN = NaN" for v by (simp add: js_mul_def)
  show ?thesis by (simp add: num_prop_def scaled_apply mem a f m g k)
qed

section \<open>Ingredient lines without a nutrient record\<close>

text \<open>
  C3. An ingredient line whose food code has no matching nutrient record is skipped: the
  totals and the rows are those of the list without the line, and so is everything the
  handler produces; the model has no error path for it. The other lines are scaled and
  aggregated as before.
\<close>

theorem unknown_code_skipped:
  "find_nutrient nd ing = None \<longrightarrow>
     aggregate ts rid nd (pre @ ing # post) (totalNutrition, [])
       = aggregate ts rid nd (pre @ post) (totalNutrition, [])
     \<and> create_recipe ts rid nd info y (pre @ ing # post) = create_recipe ts rid nd info y (pre @ post)"
  by (simp add: create_recipe_def aggregate_skip)

text \<open>
  Two lines of 50 g of the 200 kcal record around an unknown code: two rows, total energy 200.
\<close>

theorem unknown_code_skipped_witness:
  "find_nutrient [sample_record] unknown_line = None
   \<and> aggregate Undefined Undefined [sample_record] [sample_line, unknown_line, sample_line] (totalNutrition, [])
       = aggregate Undefined Undefined [sample_record] [sample_line, sample_line] (totalNutrition, [])
   \<and> length (snd (aggregate Undefined Undefined [sample_record] [sample_line, unknown_line, sample_line]
                 (totalNutrition, []))) = 2
   \<and> energy (fst (aggregate Undefined Undefined [sample_record] [sample_line, unknown_line, sample_line]
                 (totalNutrition, []))) = Fin 200"
proof -
  have eq: "aggregate Undefined Undefined [sample_record] [sample_line, unknown_line, sample_line] (totalNutrition, [])
       = aggregate Undefined Undefined [sample_record] [sample_line, sample_line] (totalNutrition, [])"
    using unknown_code_skipped [of "[sample_record]" unknown_line Undefined Undefined "[sample_line]" "[sample_line]"]
      find_unknown by simp
  have len: "length (snd (aggregate Undefined Undefined [sample_record] [sample_line, sample_line]
                 (totalNutrition, []))) = 2"
    unfolding aggregate_rows by (simp add: expected_rows_def find_sample)
  show ?thesis using eq len sample_total_energy find_unknown by simp
qed

section \<open>Totals and rows agree\<close>

text \<open>
  C9. For every ingredient list and nutrient table, each of the 33 accumulated fields of the
  final totals is the sum of the values of its column over the emitted rows: both are built
  from the same scaled values, added in row order from zero.
\<close>

theorem totals_are_row_sums:
  "length nutrient_columns = 33
   \<and> map (\<lambda>(g, i, r, d). g (fst (aggregate ts rid nd ings (totalNutrition, [])))) nutrient_columns
     = map (\<lambda>(g, i, r, d). column_sum i (snd (aggregate ts rid nd ings (totalNutrition, []))))
         nutrient_columns"
proof
  show "length nutrient_columns = 33" by (simp add: nutrient_columns_def)
  show "map (\<lambda>(g, i, r, d). g (fst (aggregate ts rid nd ings (totalNutrition, [])))) nutrient_columns
     = map (\<lambda>(g, i, r, d). column_sum i (snd (aggregate ts rid nd ings (totalNutrition, []))))
         nutrient_columns"
    by (rule map_cong [OF refl]) (auto simp: aggregate_column_sum)
qed

section \<open>Rounding in the recipe row\<close>

text \<open>
  C4 (amended). In the recipe row every total nutrient field is written with \<open>toFixed\<close>:
  thiamine, riboflavin, pyridoxine and cobalt with 3 digits, each of the other 29 fields with
  2. A total that is finite and below \<open>10 ^ 21\<close> in magnitude is thereby rounded to exactly
  that many decimal places; a total that is \<open>NaN\<close> or infinite is written as \<^verbatim>\<open>NaN\<close>,
  \<^verbatim>\<open>Infinity\<close> or \<^verbatim>\<open>-Infinity\<close>.
\<close>

theorem recipeRow_decimals:
  "map (\<lambda>(g, i, r, d). recipeRow ts rid info y t ! r) nutrient_columns
     = map (\<lambda>(g, i, r, d). Str (toFixed (g t) d)) nutrient_columns
   \<and> recipeRow ts rid info y t ! 20 = Str (toFixed (thiamine t) 3)
   \<and> recipeRow ts rid info y t ! 21 = Str (toFixed (riboflavin t) 3)
   \<and> recipeRow ts rid info y t ! 24 = Str (toFixed (pyridoxine t) 3)
   \<and> recipeRow ts rid info y t ! 38 = Str (toFixed (cobalt t) 3)
   \<and> map (\<lambda>(g, i, r, d). d) (filter (\<lambda>(g, i, r, d). r \<notin> {20, 21, 24, 38}) nutrient_columns)
     = replicate 29 2
   \<and> (\<forall>(g, i, r, d) \<in> set nutrient_columns. is_finite (g t) \<and> \<bar>mag (g t)\<bar> < 10 ^ 21 \<longrightarrow>
         (\<exists>s. recipeRow ts rid info y t ! r = Str s \<and> rounded_to d (g t) s))
   \<and> toFixed NaN k = js ''NaN'' \<and> toFixed PInf k = js ''Infinity''
   \<and> toFixed NInf k = js ''-Infinity''"
proof (intro conjI)
  show "map (\<lambda>(g, i, r, d). recipeRow ts rid info y t ! r) nutrient_columns
     = map (\<lambda>(g, i, r, d). Str (toFixed (g t) d)) nutrient_columns"
    by (rule recipeRow_columns)
  show "recipeRow ts rid info y t ! 20 = Str (toFixed (thiamine t) 3)"
    by (simp add: recipeRow_def)
  show "recipeRow ts rid info y t ! 21 = Str (toFixed (riboflavin t) 3)"
    by (simp add: recipeRow_def)
  show "recipeRow ts rid info y t ! 24 = Str (toFixed (pyridoxine t) 3)"
    by (simp add: recipeRow_def)
  show "recipeRow ts rid info y t ! 38 = Str (toFixed (cobalt t) 3)"
    by (simp add: recipeRow_def)
  show "map (\<lambda>(g, i, r, d). d) (filter (\<lambda>(g, i, r, d). r \<notin> {20, 21, 24, 38}) nutrient_columns)
     = replicate 29 2"
    by (simp add: nutrient_columns_def numeral_eq_Suc)
  show "\<forall>(g, i, r, d) \<in> set nutrient_columns. is_finite (g t) \<and> \<bar>mag (g t)\<bar> < 10 ^ 21 \<longrightarrow>
         (\<exists>s. recipeRow ts rid info y t ! r = Str s \<and> rounded_to d (g t) s)"
    using recipeRow_column toFixed_rounded column_decimals by fastforce
  show "toFixed NaN k = js ''NaN''" "toFixed PInf k = js ''Infinity''"
    "toFixed NInf k = js ''-Infinity''"
    by (simp_all add: toFixed_def)
qed

text \<open>Totals of 0.125: the energy cell reads 0.13, the thiamine cell 0.125.\<close>

theorem recipeRow_decimals_witness:
  "is_finite (energy eighth_totals) \<and> \<bar>mag (energy eighth_totals)\<bar> < 10 ^ 21
   \<and> recipeRow Undefined Undefined sample_info (Num (Fin 1)) eighth_totals ! 9 = Str (js ''0.13'')
   \<and> rounded_to 2 (Fin (1 / 8)) (js ''0.13'')
   \<and> recipeRow Undefined Undefined sample_info (Num (Fin 1)) eighth_totals ! 20 = Str (js ''0.125'')
   \<and> rounded_to 3 (Fin (1 / 8)) (js ''0.125'')"
proof -
  have e: "energy eighth_totals = Fin (1 / 8)" and th: "thiamine eighth_totals = Fin (1 / 8)"
    by (simp_all add: eighth_totals_def)
  note all = recipeRow_decimals [of Undefined Undefined sample_info "Num (Fin 1)" eighth_totals]
  from all have row: "map (\<lambda>(g, i, r, d). recipeRow Undefined Undefined sample_info (Num (Fin 1)) eighth_totals ! r)
        nutrient_columns = map (\<lambda>(g, i, r, d). Str (toFixed (g eighth_totals) d)) nutrient_columns"
    and r20: "recipeRow Undefined Undefined sample_info (Num (Fin 1)) eighth_totals ! 20 = Str (toFixed (thiamine eighth_totals) 3)"
    and rnd: "\<forall>(g, i, r, d) \<in> set nutrient_columns. is_finite (g eighth_totals) \<and> \<bar>mag (g eighth_totals)\<bar> < 10 ^ 21 \<longrightarrow>
         (\<exists>s. recipeRow Undefined Undefined sample_info (Num (Fin 1)) eighth_totals ! r = Str s \<and> rounded_to d (g eighth_totals) s)"
    by blast+
  have r9: "recipeRow Undefined Undefined sample_info (Num (Fin 1)) eighth_totals ! 9 = Str (toFixed (energy eighth_totals) 2)"
    using row by (simp add: nutrient_columns_def)
  from rnd energy_column have "is_finite (energy eighth_totals) \<and> \<bar>mag (energy eighth_totals)\<bar> < 10 ^ 21 \<longrightarrow>
      (\<exists>s. recipeRow Undefined Undefined sample_info (Num (Fin 1)) eighth_totals ! 9 = Str s \<and> rounded_to 2 (energy eighth_totals) s)"
    by fastforce
  then have a: "rounded_to 2 (Fin (1 / 8)) (js ''0.13'')"
    by (simp add: e r9 toFixed_eighth)
  from rnd thiamine_column have "is_finite (thiamine eighth_totals) \<and> \<bar>mag (thiamine eighth_totals)\<bar> < 10 ^ 21 \<longrightarrow>
      (\<exists>s. recipeRow Undefined Undefined sample_info (Num (Fin 1)) eighth_totals ! 20 = Str s \<and> rounded_to 3 (thiamine eighth_totals) s)"
    by fastforce
  then have b: "rounded_to 3 (Fin (1 / 8)) (js ''0.125'')"
    by (simp add: th r20 toFixed_eighth)
  show ?thesis using a b by (simp add: e th r9 r20 toFixed_eighth)
qed

text \<open>
  As stated for every total the claim fails: a line of the sample record without
  \<^verbatim>\<open>quantityInGrams\<close> makes every total \<open>NaN\<close>, and the energy cell of the recipe row is the
  text \<^verbatim>\<open>NaN\<close>, which has no decimal places; a total energy of \<open>10 ^ 21\<close> is written as
  \<^verbatim>\<open>1e+21\<close>, which has none either.
\<close>

theorem recipeRow_decimals_counterexample:
  "hd (recipe_rows (create_recipe Undefined Undefined [sample_record] sample_info (Num (Fin 2))
         [bare_line])) ! 9 = Str (js ''NaN'')
   \<and> decimals (js ''NaN'') = 0
   \<and> \<not> rounded_to 2 NaN (js ''NaN'')
   \<and> recipeRow Undefined Undefined sample_info (Num (Fin 2)) large_totals ! 9 = Str (js ''1e+21'')
   \<and> decimals (js ''1e+21'') = 0
   \<and> \<not> rounded_to 2 (Fin (10 ^ 21)) (js ''1e+21'')"
  by (simp add: create_recipe_parts bare_total_energy recipeRow_column [OF energy_column]
      toFixed_samples decimals_NaN rounded_to_def large_fields toFixed_large [simplified] decimals_large
      del: aggregate.simps)

section \<open>Per-serving values\<close>

text \<open>
  C5 (amended). For every aggregated totals and yield, the per-serving values of energy,
  protein, fat, carbohydrate and fiber, in the response and in the recipe row, are the total
  divided by the yield and written with \<open>toFixed(2)\<close>: rounded to 2 decimal places whenever the
  quotient is finite and below \<open>10 ^ 21\<close> in magnitude, and written as \<^verbatim>\<open>NaN\<close>, \<^verbatim>\<open>Infinity\<close> or
  \<^verbatim>\<open>-Infinity\<close> when it is not finite. Total energy 200 with yield 2 gives 100.00. The yield
  is not validated: yield 0 gives \<^verbatim>\<open>Infinity\<close> (or \<^verbatim>\<open>NaN\<close> for a zero total) and a negative yield
  a negative value, all handed to the caller.
\<close>

theorem per_serving_values:
  "perServing (response (create_recipe ts rid nd info y ings))
     = \<lparr>ps_energy = toFixed (js_div (energy (fst (aggregate ts rid nd ings (totalNutrition, [])))) (to_number y)) 2,
        ps_protein = toFixed (js_div (protein (fst (aggregate ts rid nd ings (totalNutrition, [])))) (to_number y)) 2,
        ps_fat = toFixed (js_div (fat (fst (aggregate ts rid nd ings (totalNutrition, [])))) (to_number y)) 2,
        ps_carbs = toFixed (js_div (carbs (fst (aggregate ts rid nd ings (totalNutrition, [])))) (to_number y)) 2,
        ps_fiber = toFixed (js_div (fiber (fst (aggregate ts rid nd ings (totalNutrition, [])))) (to_number y)) 2\<rparr>
   \<and> drop 43 (recipeRow ts rid info y t)
     = [y, Str (toFixed (js_div (energy t) (to_number y)) 2), Str (toFixed (js_div (protein t) (to_number y)) 2),
        Str (toFixed (js_div (fat t) (to_number y)) 2), Str (toFixed (js_div (carbs t) (to_number y)) 2),
        Str (toFixed (js_div (fiber t) (to_number y)) 2)]
   \<and> (is_finite q \<and> \<bar>mag q\<bar> < 10 ^ 21 \<longrightarrow> rounded_to 2 q (toFixed q 2))
   \<and> toFixed NaN 2 = js ''NaN'' \<and> toFixed PInf 2 = js ''Infinity''
   \<and> toFixed NInf 2 = js ''-Infinity''
   \<and> ps_energy (perServing (response (create_recipe Undefined Undefined [sample_record] sample_info
        (Num (Fin 2)) [sample_line, sample_line]))) = js ''100.00''
   \<and> ps_energy (perServing (response (create_recipe Undefined Undefined [sample_record] sample_info
        (Num (Fin 0)) [sample_line, sample_line]))) = js ''Infinity''
   \<and> ps_energy (perServing (response (create_recipe Undefined Undefined [sample_record] sample_info
        (Num (Fin 0)) []))) = js ''NaN''
   \<and> ps_energy (perServing (response (create_recipe Undefined Undefined [sample_record] sample_info
        (Num (Fin (- 2))) [sample_line, sample_line]))) = js ''-100.00''"
proof (intro conjI)
  show "perServing (response (create_recipe ts rid nd info y ings))
     = \<lparr>ps_energy = toFixed (js_div (energy (fst (aggregate ts rid nd ings (totalNutrition, [])))) (to_number y)) 2,
        ps_protein = toFixed (js_div (protein (fst (aggregate ts rid nd ings (totalNutrition, [])))) (to_number y)) 2,
        ps_fat = toFixed (js_div (fat (fst (aggregate ts rid nd ings (totalNutrition, [])))) (to_number y)) 2,
        ps_carbs = toFixed (js_div (carbs (fst (aggregate ts rid nd ings (totalNutrition, [])))) (to_number y)) 2,
        ps_fiber = toFixed (js_div (fiber (fst (aggregate ts rid nd ings (totalNutrition, [])))) (to_number y)) 2\<rparr>"
    by (simp add: create_recipe_parts response_nutrition_def)
  show "drop 43 (recipeRow ts rid info y t)
     = [y, Str (toFixed (js_div (energy t) (to_number y)) 2), Str (toFixed (js_div (protein t) (to_number y)) 2),
        Str (toFixed (js_div (fat t) (to_number y)) 2), Str (toFixed (js_div (carbs t) (to_number y)) 2),
        Str (toFixed (js_div (fiber t) (to_number y)) 2)]"
    by (simp add: recipeRow_def)
  show "is_finite q \<and> \<bar>mag q\<bar> < 10 ^ 21 \<longrightarrow> rounded_to 2 q (toFixed q 2)"
    by (simp add: toFixed_rounded)
  show "toFixed NaN 2 = js ''NaN''" "toFixed PInf 2 = js ''Infinity''"
    "toFixed NInf 2 = js ''-Infinity''"
    by (simp_all add: toFixed_def)
  show "ps_energy (perServing (response (create_recipe Undefined Undefined [sample_record] sample_info
        (Num (Fin 2)) [sample_line, sample_line]))) = js ''100.00''"
    by (simp add: create_recipe_parts response_nutrition_def sample_total_energy division_samples
        toFixed_samples del: aggregate.simps)
  show "ps_energy (perServing (response (create_recipe Undefined Undefined [sample_record] sample_info
        (Num (Fin 0)) [sample_line, sample_line]))) = js ''Infinity''"
    by (simp add: create_recipe_parts response_nutrition_def sample_total_energy division_samples
        toFixed_samples del: aggregate.simps)
  show "ps_energy (perServing (response (create_recipe Undefined Undefined [sample_record] sample_info
        (Num (Fin 0)) []))) = js ''NaN''"
    by (simp add: create_recipe_parts response_nutrition_def empty_total_energy division_samples
        toFixed_samples del: aggregate.simps)
  show "ps_energy (perServing (response (create_recipe Undefined Undefined [sample_record] sample_info
        (Num (Fin (- 2))) [sample_line, sample_line]))) = js ''-100.00''"
    by (simp add: create_recipe_parts response_nutrition_def sample_total_energy division_samples
        toFixed_samples del: aggregate.simps)
qed

text \<open>The quotient 100 is finite and is written as 100.00.\<close>

theorem per_serving_values_witness:
  "is_finite (Fin 100) \<and> \<bar>mag (Fin 100)\<bar> < 10 ^ 21 \<and> rounded_to 2 (Fin 100) (js ''100.00'')"
  using per_serving_values [of Undefined Undefined "[]" sample_info "Num (Fin 1)" "[]" totalNutrition "Fin 100"]
  by (simp add: toFixed_samples)

text \<open>
  As stated for every aggregated totals and positive integer yield the claim fails: with
  yield 2 and a line of the sample record without \<^verbatim>\<open>quantityInGrams\<close> the total energy is
  \<open>NaN\<close> and the per-serving energy is the text \<^verbatim>\<open>NaN\<close>; with yield 1 and a total energy of
  \<open>10 ^ 21\<close> it is the text \<^verbatim>\<open>1e+21\<close>.
\<close>

theorem per_serving_values_counterexample:
  "ps_energy (perServing (response (create_recipe Undefined Undefined [sample_record] sample_info
        (Num (Fin 2)) [bare_line]))) = js ''NaN''
   \<and> energy (total' (response (create_recipe Undefined Undefined [sample_record] sample_info
        (Num (Fin 2)) [bare_line]))) = NaN
   \<and> decimals (js ''NaN'') = 0
   \<and> ps_energy (perServing (response_nutrition (Num (Fin 1)) large_totals)) = js ''1e+21''
   \<and> decimals (js ''1e+21'') = 0"
  by (simp add: create_recipe_parts response_nutrition_def bare_total_energy division_NaN
      toFixed_samples decimals_NaN large_fields large_quotient [simplified] toFixed_large [simplified] decimals_large
      del: aggregate.simps)

section \<open>The omega-3 to omega-6 ratio\<close>




section \<open>The response carries the unrounded totals\<close>

text \<open>
  C10. The \<^verbatim>\<open>nutrition.total\<close> object of the response is the accumulator itself, with the raw
  floating-point values of all 33 fields; the rounding is applied only to the cells of the
  recipe row. With a total energy of 0.125 the response holds 0.125 and the row 0.13.
\<close>

theorem response_total_unrounded:
  "total' (response (create_recipe ts rid nd info y ings))
     = fst (aggregate ts rid nd ings (totalNutrition, []))
   \<and> recipe_rows (create_recipe ts rid nd info y ings)
     = [recipeRow ts rid info y (fst (aggregate ts rid nd ings (totalNutrition, [])))]
   \<and> map (\<lambda>(g, i, r, d). recipeRow ts rid info y t ! r) nutrient_columns
     = map (\<lambda>(g, i, r, d). Str (toFixed (g t) d)) nutrient_columns
   \<and> energy (total' (response (create_recipe Undefined Undefined [quarter_record] sample_info (Num (Fin 1))
         [sample_line]))) = Fin (1 / 8)
   \<and> hd (recipe_rows (create_recipe Undefined Undefined [quarter_record] sample_info (Num (Fin 1))
         [sample_line])) ! 9 = Str (js ''0.13'')"
  by (simp add: create_recipe_parts recipeRow_columns quarter_total_energy
      recipeRow_column [OF energy_column] toFixed_eighth del: aggregate.simps)

section \<open>Totals start at zero and do not decrease\<close>

text \<open>
  C8. Every field of the totals starts at exactly zero, and when every scaled contribution of
  the lines folded in so far and of the next line is non-negative, no field decreases when
  the next line is folded in.
\<close>

theorem totals_start_at_zero_and_grow:
  "map (\<lambda>(g, i, r, d). g totalNutrition) nutrient_columns = replicate 33 (Fin 0)
   \<and> (list_all (contributions_nonneg nd) (ings @ [ing]) \<longrightarrow>
        list_all (\<lambda>(g, i, r, d). js_le (g (fst (aggregate ts rid nd ings (totalNutrition, []))))
                                     (g (fst (aggregate ts rid nd (ings @ [ing]) (totalNutrition, [])))))
          nutrient_columns)"
proof
  show "map (\<lambda>(g, i, r, d). g totalNutrition) nutrient_columns = replicate 33 (Fin 0)"
    by (simp add: nutrient_columns_def totalNutrition_def numeral_eq_Suc)
  show "list_all (contributions_nonneg nd) (ings @ [ing]) \<longrightarrow>
        list_all (\<lambda>(g, i, r, d). js_le (g (fst (aggregate ts rid nd ings (totalNutrition, []))))
                                     (g (fst (aggregate ts rid nd (ings @ [ing]) (totalNutrition, [])))))
          nutrient_columns"
    using column_monotone by (fastforce simp: list_all_iff)
qed

text \<open>Two lines of 50 g of the 200 kcal record: the energy goes from 100 to 200.\<close>

theorem totals_start_at_zero_and_grow_witness:
  "list_all (contributions_nonneg [sample_record]) ([sample_line] @ [sample_line])
   \<and> energy (fst (aggregate Undefined Undefined [sample_record] [sample_line] (totalNutrition, []))) = Fin 100
   \<and> energy (fst (aggregate Undefined Undefined [sample_record] ([sample_line] @ [sample_line])
        (totalNutrition, []))) = Fin 200
   \<and> js_le (energy (fst (aggregate Undefined Undefined [sample_record] [sample_line] (totalNutrition, []))))
        (energy (fst (aggregate Undefined Undefined [sample_record] ([sample_line] @ [sample_line])
           (totalNutrition, []))))"
proof -
  have hyp: "list_all (contributions_nonneg [sample_record]) ([sample_line] @ [sample_line])"
    by (simp add: sample_contributions)
  from totals_start_at_zero_and_grow [of "[sample_record]" "[sample_line]" sample_line Undefined Undefined] hyp
  have "list_all (\<lambda>(g, i, r, d).
          js_le (g (fst (aggregate Undefined Undefined [sample_record] [sample_line] (totalNutrition, []))))
                (g (fst (aggregate Undefined Undefined [sample_record] ([sample_line] @ [sample_line])
                      (totalNutrition, []))))) nutrient_columns"
    by blast
  then have le: "js_le (energy (fst (aggregate Undefined Undefined [sample_record] [sample_line] (totalNutrition, []))))
        (energy (fst (aggregate Undefined Undefined [sample_record] ([sample_line] @ [sample_line])
           (totalNutrition, []))))"
    using energy_column by (auto simp: list_all_iff)
  have two: "energy (fst (aggregate Undefined Undefined [sample_record] ([sample_line] @ [sample_line])
        (totalNutrition, []))) = Fin 200"
    using sample_total_energy [of Undefined Undefined] by simp
  show ?thesis using hyp le two sample_single_energy [of Undefined Undefined] by blast
qed

section \<open>Order of the ingredient lines\<close>

text \<open>
  C7 (amended). The emitted rows always follow the input order: one row for each line with a
  nutrient record, in the order of the lines, duplicates of a food code kept as separate rows.
  A permutation of the ingredient list yields the same rows up to their order, and the two
  orders of a two-line list yield the same totals. For longer lists the totals are
  floating-point sums in input order and may differ between two orders.
\<close>

theorem rows_keep_order:
  "snd (aggregate ts rid nd ings (totalNutrition, [])) = concat (map (expected_rows ts rid nd) ings)
   \<and> (mset ings = mset ings' \<longrightarrow>
        mset (snd (aggregate ts rid nd ings (totalNutrition, [])))
          = mset (snd (aggregate ts rid nd ings' (totalNutrition, []))))
   \<and> fst (aggregate ts rid nd [a, b] (totalNutrition, []))
     = fst (aggregate ts rid nd [b, a] (totalNutrition, []))"
proof (intro conjI)
  show "snd (aggregate ts rid nd ings (totalNutrition, [])) = concat (map (expected_rows ts rid nd) ings)"
    by (simp add: aggregate_rows)
  show "mset ings = mset ings' \<longrightarrow>
        mset (snd (aggregate ts rid nd ings (totalNutrition, [])))
          = mset (snd (aggregate ts rid nd ings' (totalNutrition, [])))"
  proof
    assume m: "mset ings = mset ings'"
    show "mset (snd (aggregate ts rid nd ings (totalNutrition, [])))
          = mset (snd (aggregate ts rid nd ings' (totalNutrition, [])))"
      using rows_mset [OF m, of "expected_rows ts rid nd"] by (simp add: aggregate_rows)
  qed
  show "fst (aggregate ts rid nd [a, b] (totalNutrition, []))
     = fst (aggregate ts rid nd [b, a] (totalNutrition, []))"
    by (rule two_lines_swap)
qed

text \<open>Two lines of the sample record around an unknown code, and the same lines reordered.\<close>

theorem rows_keep_order_witness:
  "mset [sample_line, unknown_line, sample_line] = mset [unknown_line, sample_line, sample_line]
   \<and> snd (aggregate Undefined Undefined [sample_record] [sample_line, unknown_line, sample_line]
        (totalNutrition, []))
     = [item_row Undefined Undefined sample_line (calculateScaledNutrition sample_record (Fin 50)),
        item_row Undefined Undefined sample_line (calculateScaledNutrition sample_record (Fin 50))]
   \<and> mset (snd (aggregate Undefined Undefined [sample_record] [sample_line, unknown_line, sample_line]
        (totalNutrition, [])))
     = mset (snd (aggregate Undefined Undefined [sample_record] [unknown_line, sample_line, sample_line]
        (totalNutrition, [])))"
proof -
  have p: "mset [sample_line, unknown_line, sample_line] = mset [unknown_line, sample_line, sample_line]"
    by (simp add: add_mset_commute)
  have q: "to_number (quantityInGrams sample_line) = Fin 50" by (simp add: sample_line_def)
  note inst = rows_keep_order [of Undefined Undefined "[sample_record]"
      "[sample_line, unknown_line, sample_line]" "[unknown_line, sample_line, sample_line]"]
  from inst have rows: "snd (aggregate Undefined Undefined [sample_record]
        [sample_line, unknown_line, sample_line] (totalNutrition, []))
      = concat (map (expected_rows Undefined Undefined [sample_record])
          [sample_line, unknown_line, sample_line])"
    by blast
  from inst p have m: "mset (snd (aggregate Undefined Undefined [sample_record]
        [sample_line, unknown_line, sample_line] (totalNutrition, [])))
     = mset (snd (aggregate Undefined Undefined [sample_record] [unknown_line, sample_line, sample_line]
        (totalNutrition, [])))"
    by blast
  have "concat (map (expected_rows Undefined Undefined [sample_record])
          [sample_line, unknown_line, sample_line])
     = [item_row Undefined Undefined sample_line (calculateScaledNutrition sample_record (Fin 50)),
        item_row Undefined Undefined sample_line (calculateScaledNutrition sample_record (Fin 50))]"
    by (simp add: expected_rows_def find_sample find_unknown q)
  then show ?thesis using p rows m by simp
qed

text \<open>
  As stated for every permutation the claim fails: lines of 100 g of the records with 0.1, 0.2
  and 0.3 kcal give the total energy 0.6000000000000001 in this order and 0.6 in the reverse
  order.
\<close>

theorem totals_depend_on_order_counterexample:
  "mset [whole_line ''A001'', whole_line ''A002'', whole_line ''A003'']
     = mset [whole_line ''A003'', whole_line ''A002'', whole_line ''A001'']
   \<and> energy (fst (aggregate Undefined Undefined tenths_data
        [whole_line ''A001'', whole_line ''A002'', whole_line ''A003''] (totalNutrition, [])))
     = Fin (1351079888211149 / 2251799813685248)
   \<and> energy (fst (aggregate Undefined Undefined tenths_data
        [whole_line ''A003'', whole_line ''A002'', whole_line ''A001''] (totalNutrition, [])))
     = Fin (5404319552844595 / 9007199254740992)
   \<and> fst (aggregate Undefined Undefined tenths_data
        [whole_line ''A001'', whole_line ''A002'', whole_line ''A003''] (totalNutrition, []))
     \<noteq> fst (aggregate Undefined Undefined tenths_data
        [whole_line ''A003'', whole_line ''A002'', whole_line ''A001''] (totalNutrition, []))"
proof -
  let ?fwd = "fst (aggregate Undefined Undefined tenths_data
        [whole_line ''A001'', whole_line ''A002'', whole_line ''A003''] (totalNutrition, []))"
  let ?bwd = "fst (aggregate Undefined Undefined tenths_data
        [whole_line ''A003'', whole_line ''A002'', whole_line ''A001''] (totalNutrition, []))"
  have p: "mset [whole_line ''A001'', whole_line ''A002'', whole_line ''A003'']
     = mset [whole_line ''A003'', whole_line ''A002'', whole_line ''A001'']"
    by (simp add: add_mset_commute)
  have f: "energy ?fwd = Fin (1351079888211149 / 2251799813685248)"
    by (rule tenths_energy(1))
  have b: "energy ?bwd = Fin (5404319552844595 / 9007199254740992)"
    by (rule tenths_energy(2))
  have "energy ?fwd \<noteq> energy ?bwd" unfolding f b by simp
  then have ne: "?fwd \<noteq> ?bwd" by (rule contrapos_nn) (erule arg_cong)
  from p f b ne show ?thesis by (intro conjI)
qed

end
